theory Spec2Isabelle
  imports Main "HOL-Library.Sublist"
begin

section \<open>Strings and values of the page renderer\<close>

text \<open>
  The program is \<^verbatim>\<open>page-renderer.js\<close>. A JavaScript string is modelled as a list of
  8-bit characters, read as the code units U+0000 to U+00FF. The values that the YAML
  parser hands to the renderer are modelled by the datatype \<open>jsval\<close>; numbers are the
  integral ones, and \<open>JUndefined\<close> is also what reading an absent property gives.
\<close>

datatype jsval =
    JUndefined
  | JNull
  | JBool bool
  | JNum int
  | JStr string
  | JArr "jsval list"
  | JObj "(string \<times> jsval) list"

datatype js_error = TypeError | HttpError nat string | NetworkError | YAMLException

definition and_then :: "js_error + 'a \<Rightarrow> ('a \<Rightarrow> js_error + 'b) \<Rightarrow> js_error + 'b" where
  "and_then m f = (case m of Inl e \<Rightarrow> Inl e | Inr x \<Rightarrow> f x)"

fun nullish :: "jsval \<Rightarrow> bool" where
  "nullish JUndefined = True"
| "nullish JNull = True"
| "nullish _ = False"

fun truthy :: "jsval \<Rightarrow> bool" where
  "truthy JUndefined = False"
| "truthy JNull = False"
| "truthy (JBool b) = b"
| "truthy (JNum n) = (n \<noteq> 0)"
| "truthy (JStr s) = (s \<noteq> [])"
| "truthy (JArr xs) = True"
| "truthy (JObj kvs) = True"

text \<open>The operator \<^verbatim>\<open>a || b\<close>.\<close>

definition js_or :: "jsval \<Rightarrow> jsval \<Rightarrow> jsval" where
  "js_or a b = (if truthy a then a else b)"

text \<open>
  Reading a property \<^verbatim>\<open>v.k\<close> of a value that is neither \<^verbatim>\<open>null\<close> nor
  \<^verbatim>\<open>undefined\<close>, for the property names the program reads (\<^verbatim>\<open>type\<close>, \<^verbatim>\<open>id\<close>,
  \<^verbatim>\<open>label\<close>, \<^verbatim>\<open>items\<close>, ...): none of them is defined on the prototypes of objects,
  arrays, strings, numbers or booleans, so the read gives the object's own property
  or \<^verbatim>\<open>undefined\<close>. Reading a property of \<^verbatim>\<open>null\<close> or \<^verbatim>\<open>undefined\<close> throws; every
  function below that reads a property of an unchecked value tests \<open>nullish\<close> first.
\<close>

fun get_prop :: "jsval \<Rightarrow> string \<Rightarrow> jsval" where
  "get_prop (JObj kvs) k = (case map_of kvs k of Some v \<Rightarrow> v | None \<Rightarrow> JUndefined)"
| "get_prop _ k = JUndefined"

subsection \<open>Conversion to string\<close>

fun digits :: "nat \<Rightarrow> string" where
  "digits n =
     (if n < 10 then [''0123456789'' ! n]
      else digits (n div 10) @ [''0123456789'' ! (n mod 10)])"

declare digits.simps [simp del]

text \<open>
  \<^verbatim>\<open>String(v)\<close>, also the conversion behind \<^verbatim>\<open>'...' + v\<close> and behind a property key
  \<^verbatim>\<open>o[v]\<close>. An array is joined with commas, \<^verbatim>\<open>null\<close> and \<^verbatim>\<open>undefined\<close> elements
  giving the empty string. A parsed mapping is a plain object: it converts to
  \<^verbatim>\<open>[object Object]\<close> through the inherited \<^verbatim>\<open>toString\<close>, unless it has an own
  \<^verbatim>\<open>toString\<close> entry, which is not callable, so that the conversion throws.
\<close>

fun to_string :: "jsval \<Rightarrow> js_error + string"
  and array_join :: "jsval list \<Rightarrow> js_error + string" where
  "to_string JUndefined = Inr ''undefined''"
| "to_string JNull = Inr ''null''"
| "to_string (JBool b) = Inr (if b then ''true'' else ''false'')"
| "to_string (JNum i) = Inr (if i < 0 then ''-'' @ digits (nat (- i)) else digits (nat i))"
| "to_string (JStr s) = Inr s"
| "to_string (JArr xs) = array_join xs"
| "to_string (JObj kvs) =
     (if ''toString'' \<in> set (map fst kvs) then Inl TypeError else Inr ''[object Object]'')"
| "array_join [] = Inr ''''"
| "array_join [x] = (if nullish x then Inr '''' else to_string x)"
| "array_join (x # y # ys) =
     and_then (if nullish x then Inr '''' else to_string x) (\<lambda>a.
     and_then (array_join (y # ys)) (\<lambda>b. Inr (a @ '','' @ b)))"

subsection \<open>String helpers\<close>

text \<open>\<^verbatim>\<open>s.replace(/c/g, r)\<close> for a single character \<open>c\<close>.\<close>

definition replace_all :: "char \<Rightarrow> string \<Rightarrow> string \<Rightarrow> string" where
  "replace_all c r s = concat (map (\<lambda>x. if x = c then r else [x]) s)"

text \<open>
  \<^verbatim>\<open>toLowerCase\<close> on the code units below 256: the upper-case letters are
  \<open>A\<close> to \<open>Z\<close> (65 to 90) and U+00C0 to U+00DE without the multiplication sign
  U+00D7 (215); the lower-case letter is 32 higher, that is, bit 5 is set.
\<close>

definition is_upper :: "char \<Rightarrow> bool" where
  "is_upper c =
     (let n = (of_char c :: nat)
      in (65 \<le> n \<and> n \<le> 90) \<or> (192 \<le> n \<and> n \<le> 222 \<and> n \<noteq> 215))"

fun set_bit5 :: "char \<Rightarrow> char" where
  "set_bit5 (Char b0 b1 b2 b3 b4 b5 b6 b7) = Char b0 b1 b2 b3 b4 True b6 b7"

definition lower_char :: "char \<Rightarrow> char" where
  "lower_char c = (if is_upper c then set_bit5 c else c)"

definition toLowerCase :: "string \<Rightarrow> string" where
  "toLowerCase s = map lower_char s"

text \<open>\<^verbatim>\<open>s.replace(/\/+$/, '')\<close>: the run of slashes at the end of the string is removed.\<close>

definition strip_trailing_slashes :: "string \<Rightarrow> string" where
  "strip_trailing_slashes s = rev (dropWhile (\<lambda>c. c = CHR ''/'') (rev s))"

text \<open>\<^verbatim>\<open>c.indexOf(h)\<close>: the first position at which \<open>h\<close> occurs in \<open>c\<close>, or \<open>-1\<close>.\<close>

fun index_from :: "nat \<Rightarrow> string \<Rightarrow> string \<Rightarrow> int" where
  "index_from i h [] = (if h = [] then int i else - 1)"
| "index_from i h (c # cs) =
     (if take (length h) (c # cs) = h then int i else index_from (Suc i) h cs)"

definition indexOf :: "string \<Rightarrow> string \<Rightarrow> int" where
  "indexOf c h = index_from 0 h c"

section \<open>The content map and the helpers\<close>

definition CONTENT_MAP :: "(string \<times> string) list" where
  "CONTENT_MAP =
     [(''/'', ''content/home.yml''),
      (''/about'', ''content/about.yml''),
      (''/activities'', ''content/activities.yml''),
      (''/management'', ''content/management.yml''),
      (''/contact'', ''content/contact.yml''),
      (''/legal'', ''content/legal/index.yml''),
      (''/legal/privacy-policy'', ''content/legal/privacy-policy.yml''),
      (''/legal/terms-of-use'', ''content/legal/terms-of-use.yml''),
      (''/legal/cookie-notice'', ''content/legal/cookie-notice.yml''),
      (''/legal/ip-notice'', ''content/legal/ip-notice.yml'')]"

definition NAV_CONFIG_PATH :: string where
  "NAV_CONFIG_PATH = ''content/nav.yml''"

definition normalisePath :: "string \<Rightarrow> string" where
  "normalisePath pathname =
     (let p = toLowerCase (strip_trailing_slashes pathname)
      in if p = '''' then ''/'' else p)"

definition esc :: "jsval \<Rightarrow> string" where
  "esc str =
     (case str of
        JStr s \<Rightarrow>
          replace_all (CHR 0x22) ''&quot;''
            (replace_all CHR ''>'' ''&gt;''
              (replace_all CHR ''<'' ''&lt;''
                (replace_all CHR ''&'' ''&amp;'' s)))
      | _ \<Rightarrow> '''')"

section \<open>Section renderers\<close>

text \<open>
  The element that a renderer returns: the class name and the identifier set by
  \<open>createSection\<close>, and the markup assigned to \<^verbatim>\<open>innerHTML\<close>. For each
  renderer \<open>r\<close>, \<open>r_markup\<close> is the expression on the right of its assignment
  \<^verbatim>\<open>el.innerHTML = ...\<close>, and \<open>r\<close> the function itself.
\<close>

record html_element =
  className :: string
  elem_id :: "string option"
  innerHTML :: string

definition createSection :: "jsval \<Rightarrow> js_error + html_element" where
  "createSection s =
     and_then (to_string (js_or (get_prop s ''type'') (JStr ''text''))) (\<lambda>t.
       if truthy (get_prop s ''id'')
       then and_then (to_string (get_prop s ''id'')) (\<lambda>i.
              Inr \<lparr>className = ''section section--'' @ t, elem_id = Some i, innerHTML = ''''\<rparr>)
       else Inr \<lparr>className = ''section section--'' @ t, elem_id = None, innerHTML = ''''\<rparr>)"

definition sectionLabel :: "jsval \<Rightarrow> string" where
  \<open>sectionLabel label =
     (if truthy label then ''<h2 class="section-label">'' @ esc label @ ''</h2>'' else '''')\<close>

text \<open>
  \<^verbatim>\<open>(s.items || []).map(f).join('')\<close>: a truthy \<^verbatim>\<open>items\<close> that is not an
  array has no callable \<^verbatim>\<open>map\<close>, and the call throws; the callback \<open>f\<close> throws when it
  reads a property of a \<^verbatim>\<open>null\<close> item, which ends the loop.
\<close>

primrec map_result :: "('a \<Rightarrow> js_error + 'b) \<Rightarrow> 'a list \<Rightarrow> js_error + 'b list" where
  "map_result f [] = Inr []"
| "map_result f (x # xs) =
     and_then (f x) (\<lambda>y. and_then (map_result f xs) (\<lambda>ys. Inr (y # ys)))"

definition array_map :: "jsval \<Rightarrow> (jsval \<Rightarrow> js_error + 'b) \<Rightarrow> js_error + 'b list" where
  "array_map v f = (case v of JArr xs \<Rightarrow> map_result f xs | _ \<Rightarrow> Inl TypeError)"

definition items_markup :: "jsval \<Rightarrow> (jsval \<Rightarrow> js_error + string) \<Rightarrow> js_error + string" where
  "items_markup s f =
     and_then (array_map (js_or (get_prop s ''items'') (JArr [])) f) (\<lambda>parts. Inr (concat parts))"

definition hero_markup :: "jsval \<Rightarrow> string" where
  \<open>hero_markup s =
       ''<div class="section-inner">'' @
         ''<h1 class="hero-heading">'' @ esc (js_or (get_prop s ''heading'') (JStr '''')) @ ''</h1>'' @
         (if truthy (get_prop s ''subheading'')
          then ''<p class="hero-subheading">'' @ esc (get_prop s ''subheading'') @ ''</p>''
          else '''') @
       ''</div>''\<close>

definition hero :: "jsval \<Rightarrow> js_error + html_element" where
  "hero s =
     and_then (createSection s) (\<lambda>el. Inr (el\<lparr>innerHTML := hero_markup s\<rparr>))"

definition page_header_markup :: "jsval \<Rightarrow> string" where
  \<open>page_header_markup s =
       ''<div class="section-inner">'' @
         ''<h1 class="page-heading">'' @ esc (js_or (get_prop s ''heading'') (JStr '''')) @ ''</h1>'' @
         (if truthy (get_prop s ''subheading'')
          then ''<p class="page-subheading">'' @ esc (get_prop s ''subheading'') @ ''</p>''
          else '''') @
       ''</div>''\<close>

definition page_header :: "jsval \<Rightarrow> js_error + html_element" where
  "page_header s =
     and_then (createSection s) (\<lambda>el. Inr (el\<lparr>innerHTML := page_header_markup s\<rparr>))"

definition summary_item :: "jsval \<Rightarrow> js_error + string" where
  \<open>summary_item item =
     (if nullish item then Inl TypeError
      else Inr (''<div class="summary-item">'' @
        ''<dt class="summary-term">'' @ esc (get_prop item ''label'') @ ''</dt>'' @
        ''<dd class="summary-value">'' @ esc (get_prop item ''value'') @ ''</dd>'' @
      ''</div>''))\<close>

definition summary_markup :: "jsval \<Rightarrow> string \<Rightarrow> string" where
  \<open>summary_markup s items =
       ''<div class="section-inner">'' @
         sectionLabel (get_prop s ''label'') @
         ''<dl class="summary-list">'' @ items @ ''</dl>'' @
       ''</div>''\<close>

definition summary :: "jsval \<Rightarrow> js_error + html_element" where
  "summary s =
     and_then (items_markup s summary_item) (\<lambda>items.
     and_then (createSection s) (\<lambda>el. Inr (el\<lparr>innerHTML := summary_markup s items\<rparr>)))"

definition statement_markup :: "jsval \<Rightarrow> string" where
  \<open>statement_markup s =
       ''<div class="section-inner">'' @
         ''<p class="statement-body">'' @ esc (js_or (get_prop s ''body'') (JStr '''')) @ ''</p>'' @
       ''</div>''\<close>

definition statement :: "jsval \<Rightarrow> js_error + html_element" where
  "statement s =
     and_then (createSection s) (\<lambda>el. Inr (el\<lparr>innerHTML := statement_markup s\<rparr>))"

definition text_block_markup :: "jsval \<Rightarrow> string" where
  \<open>text_block_markup s =
       ''<div class="section-inner">'' @
         sectionLabel (get_prop s ''label'') @
         ''<div class="text-body">'' @
           replace_all (CHR 0x0A) ''<br>'' (esc (js_or (get_prop s ''body'') (JStr ''''))) @
         ''</div>'' @
       ''</div>''\<close>

definition text_block :: "jsval \<Rightarrow> js_error + html_element" where
  "text_block s =
     and_then (createSection s) (\<lambda>el. Inr (el\<lparr>innerHTML := text_block_markup s\<rparr>))"

definition definition_item :: "jsval \<Rightarrow> js_error + string" where
  \<open>definition_item item =
     (if nullish item then Inl TypeError
      else Inr (''<div class="def-item">'' @
        ''<dt class="def-term">'' @ esc (get_prop item ''term'') @ ''</dt>'' @
        ''<dd class="def-value">'' @ esc (get_prop item ''definition'') @ ''</dd>'' @
      ''</div>''))\<close>

definition definition_list_markup :: "jsval \<Rightarrow> string \<Rightarrow> string" where
  \<open>definition_list_markup s items =
       ''<div class="section-inner">'' @
         sectionLabel (get_prop s ''label'') @
         ''<dl class="def-list">'' @ items @ ''</dl>'' @
       ''</div>''\<close>

definition definition_list :: "jsval \<Rightarrow> js_error + html_element" where
  "definition_list s =
     and_then (items_markup s definition_item) (\<lambda>items.
     and_then (createSection s) (\<lambda>el. Inr (el\<lparr>innerHTML := definition_list_markup s items\<rparr>)))"

definition activity_item :: "jsval \<Rightarrow> js_error + string" where
  \<open>activity_item item =
     (if nullish item then Inl TypeError
      else Inr (''<div class="activity-item">'' @
        ''<h2 class="activity-heading">'' @ esc (get_prop item ''heading'') @ ''</h2>'' @
        ''<p class="activity-description">'' @ esc (get_prop item ''description'') @ ''</p>'' @
      ''</div>''))\<close>

definition activity_list_markup :: "jsval \<Rightarrow> string \<Rightarrow> string" where
  \<open>activity_list_markup s items =
       ''<div class="section-inner">'' @
         sectionLabel (get_prop s ''label'') @
         ''<div class="activity-list">'' @ items @ ''</div>'' @
       ''</div>''\<close>

definition activity_list :: "jsval \<Rightarrow> js_error + html_element" where
  "activity_list s =
     and_then (items_markup s activity_item) (\<lambda>items.
     and_then (createSection s) (\<lambda>el. Inr (el\<lparr>innerHTML := activity_list_markup s items\<rparr>)))"

definition person_item :: "jsval \<Rightarrow> js_error + string" where
  \<open>person_item item =
     (if nullish item then Inl TypeError
      else Inr (''<article class="person-item">'' @
        ''<h2 class="person-name">'' @ esc (get_prop item ''name'') @ ''</h2>'' @
        (if truthy (get_prop item ''title'')
         then ''<p class="person-title">'' @ esc (get_prop item ''title'') @ ''</p>''
         else '''') @
        (if truthy (get_prop item ''bio'')
         then ''<p class="person-bio">'' @ esc (get_prop item ''bio'') @ ''</p>''
         else '''') @
      ''</article>''))\<close>

definition persons_markup :: "jsval \<Rightarrow> string \<Rightarrow> string" where
  \<open>persons_markup s items =
       ''<div class="section-inner">'' @
         sectionLabel (get_prop s ''label'') @
         ''<div class="persons-list">'' @ items @ ''</div>'' @
       ''</div>''\<close>

definition persons :: "jsval \<Rightarrow> js_error + html_element" where
  "persons s =
     and_then (items_markup s person_item) (\<lambda>items.
     and_then (createSection s) (\<lambda>el. Inr (el\<lparr>innerHTML := persons_markup s items\<rparr>)))"

definition contact_item :: "jsval \<Rightarrow> js_error + string" where
  \<open>contact_item item =
     (if nullish item then Inl TypeError
      else
        (let val =
           (if truthy (get_prop item ''href'')
            then ''<a href="'' @ esc (get_prop item ''href'') @ ''">'' @
                 esc (get_prop item ''value'') @ ''</a>''
            else esc (get_prop item ''value''))
         in Inr (''<div class="contact-item">'' @
           ''<dt class="contact-method">'' @ esc (get_prop item ''method'') @ ''</dt>'' @
           ''<dd class="contact-value">'' @ val @ ''</dd>'' @
         ''</div>'')))\<close>

definition contact_block_markup :: "jsval \<Rightarrow> string \<Rightarrow> string" where
  \<open>contact_block_markup s items =
       ''<div class="section-inner">'' @
         sectionLabel (get_prop s ''label'') @
         ''<dl class="contact-list">'' @ items @ ''</dl>'' @
       ''</div>''\<close>

definition contact_block :: "jsval \<Rightarrow> js_error + html_element" where
  "contact_block s =
     and_then (items_markup s contact_item) (\<lambda>items.
     and_then (createSection s) (\<lambda>el. Inr (el\<lparr>innerHTML := contact_block_markup s items\<rparr>)))"

definition link_markup :: "jsval \<Rightarrow> string" where
  \<open>link_markup s =
     (let target =
        (if truthy (get_prop s ''external'')
         then '' target="_blank" rel="noopener noreferrer"'' else '''')
      in
       ''<div class="section-inner">'' @
         ''<a href="'' @ esc (js_or (get_prop s ''url'') (JStr ''#'')) @
           ''" class="official-link"'' @ target @ ''>'' @
           esc (js_or (get_prop s ''label'') (JStr ''Visit Official Website'')) @
         ''</a>'' @
       ''</div>'')\<close>

definition link :: "jsval \<Rightarrow> js_error + html_element" where
  "link s =
     and_then (createSection s) (\<lambda>el. Inr (el\<lparr>innerHTML := link_markup s\<rparr>))"

definition back_link_markup :: "jsval \<Rightarrow> string" where
  \<open>back_link_markup s =
       ''<div class="section-inner">'' @
         ''<a href="'' @ esc (js_or (get_prop s ''url'') (JStr ''/legal/'')) @
           ''" class="back-link">'' @
           esc (js_or (get_prop s ''label'') (JStr ''Back'')) @
         ''</a>'' @
       ''</div>''\<close>

definition back_link :: "jsval \<Rightarrow> js_error + html_element" where
  "back_link s =
     and_then (createSection s) (\<lambda>el. Inr (el\<lparr>innerHTML := back_link_markup s\<rparr>))"

definition legal_nav_item :: "jsval \<Rightarrow> js_error + string" where
  \<open>legal_nav_item item =
     (if nullish item then Inl TypeError
      else Inr (''<li>'' @
        ''<a href="'' @ esc (get_prop item ''url'') @ ''" class="legal-nav-link">'' @
          esc (get_prop item ''label'') @
        ''</a>'' @
      ''</li>''))\<close>

definition legal_nav_markup :: "jsval \<Rightarrow> string \<Rightarrow> string" where
  \<open>legal_nav_markup s items =
       ''<div class="section-inner">'' @
         sectionLabel (get_prop s ''label'') @
         ''<ul class="legal-nav-list" role="list">'' @ items @ ''</ul>'' @
       ''</div>''\<close>

definition legal_nav :: "jsval \<Rightarrow> js_error + html_element" where
  "legal_nav s =
     and_then (items_markup s legal_nav_item) (\<lambda>items.
     and_then (createSection s) (\<lambda>el. Inr (el\<lparr>innerHTML := legal_nav_markup s items\<rparr>)))"

text \<open>
  The body of a legal document is concatenated as it is, through the string conversion
  of \<^verbatim>\<open>s.body || ''\<close>.
\<close>

definition legal_document_markup :: "jsval \<Rightarrow> js_error + string" where
  \<open>legal_document_markup s =
     and_then (to_string (js_or (get_prop s ''body'') (JStr ''''))) (\<lambda>body. Inr (
       ''<div class="section-inner">'' @
         (if truthy (get_prop s ''last_updated'')
          then ''<p class="legal-updated">Last updated: '' @ esc (get_prop s ''last_updated'') @ ''</p>''
          else '''') @
         ''<div class="legal-body">'' @ body @ ''</div>'' @
       ''</div>''))\<close>

definition legal_document :: "jsval \<Rightarrow> js_error + html_element" where
  "legal_document s =
     and_then (createSection s) (\<lambda>el.
     and_then (legal_document_markup s) (\<lambda>markup. Inr (el\<lparr>innerHTML := markup\<rparr>)))"

definition renderers :: "(string \<times> (jsval \<Rightarrow> js_error + html_element)) list" where
  "renderers =
     [(''hero'', hero),
      (''page-header'', page_header),
      (''summary'', summary),
      (''statement'', statement),
      (''text-block'', text_block),
      (''definition-list'', definition_list),
      (''activity-list'', activity_list),
      (''persons'', persons),
      (''contact-block'', contact_block),
      (''link'', link),
      (''back-link'', back_link),
      (''legal-nav'', legal_nav),
      (''legal-document'', legal_document)]"

subsection \<open>Dispatch\<close>

text \<open>
  \<^verbatim>\<open>renderers\<close> and \<^verbatim>\<open>CONTENT_MAP\<close> are object literals, so \<^verbatim>\<open>o[key]\<close> finds the
  own entry for \<open>key\<close> or else the member of \<^verbatim>\<open>Object.prototype\<close> of that name.
\<close>

definition object_prototype_keys :: "string list" where
  "object_prototype_keys =
     [''constructor'', ''__defineGetter__'', ''__defineSetter__'', ''hasOwnProperty'',
      ''__lookupGetter__'', ''__lookupSetter__'', ''isPrototypeOf'', ''propertyIsEnumerable'',
      ''toString'', ''valueOf'', ''__proto__'', ''toLocaleString'']"

datatype 'a member = Own 'a | Inherited string | Absent

definition lookup_member :: "(string \<times> 'a) list \<Rightarrow> string \<Rightarrow> 'a member" where
  "lookup_member obj key =
     (case map_of obj key of
        Some v \<Rightarrow> Own v
      | None \<Rightarrow> if key \<in> set object_prototype_keys then Inherited key else Absent)"

text \<open>
  What \<open>renderSection\<close> returns: an element, or, when the looked-up member is an
  inherited function that returns normally, the value of that call, which is no element.
\<close>

datatype rendered = Node html_element | NotANode jsval

text \<open>
  The call \<^verbatim>\<open>renderer(section)\<close> of an inherited member, with no receiver and an
  object as its argument: \<^verbatim>\<open>Object(section)\<close> returns the section itself,
  \<^verbatim>\<open>toString\<close> returns \<^verbatim>\<open>[object Undefined]\<close>, \<^verbatim>\<open>__proto__\<close> is no function, and
  the other members convert their missing receiver to an object; all these throw.
\<close>

definition call_inherited :: "string \<Rightarrow> jsval \<Rightarrow> js_error + rendered" where
  "call_inherited key section =
     (if key = ''constructor'' then Inr (NotANode section)
      else if key = ''toString'' then Inr (NotANode (JStr ''[object Undefined]''))
      else Inl TypeError)"

definition fallback_markup :: "jsval \<Rightarrow> string" where
  \<open>fallback_markup section =
     ''<div class="section-inner">'' @
       (if truthy (get_prop section ''body'')
        then ''<p>'' @ esc (get_prop section ''body'') @ ''</p>'' else '''') @
     ''</div>''\<close>

definition renderSection :: "jsval \<Rightarrow> js_error + rendered" where
  "renderSection section =
     (if nullish section then Inl TypeError
      else and_then (to_string (get_prop section ''type'')) (\<lambda>key.
        case lookup_member renderers key of
          Own renderer \<Rightarrow> and_then (renderer section) (\<lambda>el. Inr (Node el))
        | Inherited k \<Rightarrow> call_inherited k section
        | Absent \<Rightarrow>
            and_then (createSection section) (\<lambda>el.
              Inr (Node (el\<lparr>innerHTML := fallback_markup section\<rparr>)))))"

section \<open>Active navigation state\<close>

text \<open>
  A navigation link: its \<^verbatim>\<open>href\<close> attribute (\<open>None\<close> when \<^verbatim>\<open>getAttribute\<close> returns
  \<^verbatim>\<open>null\<close>), its class list and its \<^verbatim>\<open>aria-current\<close> attribute.
\<close>

record nav_link =
  href :: "string option"
  classList :: "string list"
  aria_current :: "string option"

definition classList_add :: "string \<Rightarrow> string list \<Rightarrow> string list" where
  "classList_add c cs = (if c \<in> set cs then cs else cs @ [c])"

definition classList_remove :: "string \<Rightarrow> string list \<Rightarrow> string list" where
  "classList_remove c cs = filter (\<lambda>x. x \<noteq> c) cs"

text \<open>The body of the \<^verbatim>\<open>forEach\<close> callback of \<open>setActiveNav\<close>.\<close>

definition mark_link :: "string \<Rightarrow> nav_link \<Rightarrow> nav_link" where
  "mark_link currentPath lnk =
     (let href = normalisePath (case href lnk of None \<Rightarrow> '''' | Some h \<Rightarrow> if h \<noteq> '''' then h else '''');
          isActive = (href = currentPath \<or> (href \<noteq> ''/'' \<and> indexOf currentPath href = 0))
      in if isActive
         then lnk\<lparr>classList := classList_add ''is-active'' (classList lnk),
                  aria_current := Some ''page''\<rparr>
         else lnk\<lparr>classList := classList_remove ''is-active'' (classList lnk),
                  aria_current := None\<rparr>)"

section \<open>The page and its two pipelines\<close>

text \<open>
  A child of the content root is either what the HTML parser makes of a piece of markup
  assigned to \<^verbatim>\<open>innerHTML\<close>, or a section element appended from the fragment.
\<close>

datatype dom_node = Parsed string | SectionEl html_element

record root_el =
  aria_busy :: "string option"
  children :: "dom_node list"

text \<open>The three kinds of statement that \<open>init\<close> runs on the content root.\<close>

datatype root_op =
    SetAriaBusy string
  | SetInnerHTML string
  | AppendChild "html_element list"

fun apply_op :: "root_op \<Rightarrow> root_el \<Rightarrow> root_el" where
  "apply_op (SetAriaBusy v) r = r\<lparr>aria_busy := Some v\<rparr>"
| "apply_op (SetInnerHTML m) r = r\<lparr>children := (if m = '''' then [] else [Parsed m])\<rparr>"
| "apply_op (AppendChild frag) r = r\<lparr>children := children r @ map SectionEl frag\<rparr>"

definition run_ops :: "root_op list \<Rightarrow> root_el \<Rightarrow> root_el" where
  "run_ops ops r = fold apply_op ops r"

text \<open>The states of the root after each statement, the state before them first.\<close>

fun trace_ops :: "root_op list \<Rightarrow> root_el \<Rightarrow> root_el list" where
  "trace_ops [] r = [r]"
| "trace_ops (op # ops) r = r # trace_ops ops (apply_op op r)"

text \<open>
  The footer slots, each \<open>None\<close> when \<^verbatim>\<open>querySelector\<close> finds no element: the text
  of the name and of the state, the text and the \<^verbatim>\<open>href\<close> of the email link, the markup
  of the copyright line.
\<close>

record footer_slots =
  footer_name :: "string option"
  footer_state :: "string option"
  footer_email :: "(string \<times> string option) option"
  footer_copyright :: "string option"

text \<open>
  The page: the location's path, the content root if there is one, the navigation
  links, the footer, the document title, the \<^verbatim>\<open>content\<close> attribute of the description
  element if there is one, the errors written to the console, the addresses for which
  \<^verbatim>\<open>fetch\<close> was called, and whether \<^verbatim>\<open>navConfigPromise\<close> is set.
\<close>

record world =
  pathname :: string
  root :: "root_el option"
  nav_links :: "nav_link list"
  footer :: footer_slots
  title :: string
  meta_description :: "string option"
  console :: "(string \<times> js_error) list"
  fetched :: "string list"
  navConfigPromise :: bool

record response =
  ok :: bool
  status :: nat
  body_text :: string

definition setActiveNav :: "world \<Rightarrow> world" where
  "setActiveNav w =
     (let currentPath = normalisePath (pathname w)
      in w\<lparr>nav_links := map (mark_link currentPath) (nav_links w)\<rparr>)"

text \<open>
  The two string literals of the program that contain code units above 255 (the dash
  and the dotless i of the company name) are written here in ASCII.
\<close>

definition TITLE_SUFFIX :: string where
  "TITLE_SUFFIX = '' - Nilufer Ormanli Studio LLC''"

definition DEFAULT_ENTITY_NAME :: string where
  "DEFAULT_ENTITY_NAME = ''Nilufer Ormanli Studio LLC''"


definition LOAD_FAILED_MARKUP :: string where
  \<open>LOAD_FAILED_MARKUP =
     ''<section class="section"><div class="section-inner">'' @
       ''<p style="color:var(--c-text-2)">Content could not be loaded.</p>'' @
     ''</div></section>''\<close>

subsection \<open>Site chrome\<close>


text \<open>The first \<^verbatim>\<open>then\<close> callback of both fetches: the text of a successful response.\<close>

definition response_text :: "string \<Rightarrow> js_error + response \<Rightarrow> js_error + string" where
  "response_text path result =
     and_then result (\<lambda>res.
       if \<not> ok res then Inl (HttpError (status res) path) else Inr (body_text res))"

text \<open>
  \<open>applyFooter\<close> changes one slot after the other; a conversion to string that throws
  ends it with the slots changed so far. \<open>year\<close> is \<^verbatim>\<open>new Date().getFullYear()\<close>.
\<close>

definition applyFooter :: "int \<Rightarrow> jsval \<Rightarrow> footer_slots \<Rightarrow> footer_slots \<times> js_error option" where
  "applyFooter year navData f0 =
     (let footerCfg = js_or (get_prop navData ''footer'') (JObj []);
          siteCfg = js_or (get_prop navData ''site'') (JObj []);
          entityName = js_or (js_or (get_prop footerCfg ''entity_name'') (get_prop siteCfg ''name''))
                             (JStr DEFAULT_ENTITY_NAME);
          stateText = js_or (get_prop footerCfg ''state_of_registration'') (get_prop footerCfg ''state'');
          email = get_prop footerCfg ''business_email'';
          yr = js_or (get_prop footerCfg ''copyright_year'') (JNum year);
          step1 = (case footer_name f0 of
                     None \<Rightarrow> Inr f0
                   | Some _ \<Rightarrow> and_then (to_string entityName) (\<lambda>t. Inr (f0\<lparr>footer_name := Some t\<rparr>)))
      in case step1 of Inl e \<Rightarrow> (f0, Some e) | Inr f1 \<Rightarrow>
         (let step2 = (if footer_state f1 \<noteq> None \<and> truthy stateText
                       then and_then (to_string stateText) (\<lambda>t.
                              Inr (f1\<lparr>footer_state := Some (''Registered in '' @ t)\<rparr>))
                       else Inr f1)
          in case step2 of Inl e \<Rightarrow> (f1, Some e) | Inr f2 \<Rightarrow>
             (let step3 = (if footer_email f2 \<noteq> None \<and> truthy email
                           then and_then (to_string email) (\<lambda>t.
                                  Inr (f2\<lparr>footer_email := Some (t, Some (''mailto:'' @ t))\<rparr>))
                           else Inr f2)
              in case step3 of Inl e \<Rightarrow> (f2, Some e) | Inr f3 \<Rightarrow>
                 (case footer_copyright f3 of
                    None \<Rightarrow> (f3, None)
                  | Some _ \<Rightarrow>
                      (case to_string yr of
                         Inl e \<Rightarrow> (f3, Some e)
                       | Inr y \<Rightarrow>
                           (f3\<lparr>footer_copyright :=
                               Some (''&copy; '' @ esc (JStr y) @ '' '' @ esc entityName @
                                     ''. All rights reserved.'')\<rparr>, None))))))"

definition applySiteChrome :: "int \<Rightarrow> jsval \<Rightarrow> footer_slots \<Rightarrow> footer_slots \<times> js_error option" where
  "applySiteChrome year navData f =
     (if \<not> truthy navData then (f, None) else applyFooter year navData f)"

text \<open>
  The chrome pipeline once the fetch of \<open>NAV_CONFIG_PATH\<close> has settled with \<open>result\<close>:
  the chain of \<open>loadNavConfig\<close> parses the text with \<open>load\<close> (\<^verbatim>\<open>jsyaml.load\<close>), logs
  a failure and resolves to \<^verbatim>\<open>null\<close>; \<open>init\<close> then applies the chrome and ignores what
  \<open>applySiteChrome\<close> throws.
\<close>

definition chrome_settled ::
  "(string \<Rightarrow> js_error + jsval) \<Rightarrow> int \<Rightarrow> js_error + response \<Rightarrow> world \<Rightarrow> world" where
  "chrome_settled load year result w =
     (case and_then (response_text NAV_CONFIG_PATH result) load of
        Inl err \<Rightarrow>
          (let w1 = w\<lparr>console := console w @ [(''[page-renderer] Failed to load nav config:'', err)]\<rparr>
           in w1\<lparr>footer := fst (applySiteChrome year JNull (footer w1))\<rparr>)
      | Inr navData \<Rightarrow> w\<lparr>footer := fst (applySiteChrome year navData (footer w))\<rparr>)"

subsection \<open>Main content\<close>

text \<open>
  The second \<^verbatim>\<open>then\<close> callback of the content fetch. It returns the page as it is when
  the callback ends, and the error if it ended by throwing. The content root exists
  whenever the callbacks run: \<open>init\<close> returns before the fetch when there is none.
\<close>

definition render_sections :: "jsval \<Rightarrow> js_error + html_element list" where
  "render_sections data =
     array_map (js_or (get_prop data ''sections'') (JArr [])) (\<lambda>section.
       and_then (renderSection section) (\<lambda>r.
         case r of Node el \<Rightarrow> Inr el | NotANode v \<Rightarrow> Inl TypeError))"

definition content_ops :: "html_element list \<Rightarrow> root_op list" where
  "content_ops fragment = [SetAriaBusy ''false'', SetInnerHTML '''', AppendChild fragment]"

definition content_loaded ::
  "(string \<Rightarrow> js_error + jsval) \<Rightarrow> string \<Rightarrow> world \<Rightarrow> world \<times> js_error option" where
  "content_loaded load text w =
     (case load text of Inl e \<Rightarrow> (w, Some e) | Inr data \<Rightarrow>
      if nullish data then (w, Some TypeError)
      else
        (let meta = get_prop data ''meta'';
             step1 = (if truthy meta \<and> truthy (get_prop meta ''title'')
                      then and_then (to_string (get_prop meta ''title'')) (\<lambda>t.
                             Inr (w\<lparr>title := t @ TITLE_SUFFIX\<rparr>))
                      else Inr w)
         in case step1 of Inl e \<Rightarrow> (w, Some e) | Inr w1 \<Rightarrow>
            (let step2 = (if truthy meta \<and> truthy (get_prop meta ''description'')
                             \<and> meta_description w1 \<noteq> None
                          then and_then (to_string (get_prop meta ''description'')) (\<lambda>d.
                                 Inr (w1\<lparr>meta_description := Some d\<rparr>))
                          else Inr w1)
             in case step2 of Inl e \<Rightarrow> (w1, Some e) | Inr w2 \<Rightarrow>
                (case render_sections data of
                   Inl e \<Rightarrow> (w2, Some e)
                 | Inr fragment \<Rightarrow>
                     (setActiveNav (w2\<lparr>root := map_option (run_ops (content_ops fragment)) (root w2)\<rparr>),
                      None)))))"

definition failed_ops :: "root_op list" where
  "failed_ops = [SetAriaBusy ''false'', SetInnerHTML LOAD_FAILED_MARKUP]"

definition content_failed :: "js_error \<Rightarrow> world \<Rightarrow> world" where
  "content_failed err w =
     w\<lparr>console := console w @ [(''[page-renderer] Failed to load content:'', err)],
       root := map_option (run_ops failed_ops) (root w)\<rparr>"

text \<open>The content pipeline once the fetch of \<open>yamlPath\<close> has settled with \<open>result\<close>.\<close>

definition content_settled ::
  "(string \<Rightarrow> js_error + jsval) \<Rightarrow> string \<Rightarrow> js_error + response \<Rightarrow> world \<Rightarrow> world" where
  "content_settled load yamlPath result w =
     (case response_text yamlPath result of
        Inl err \<Rightarrow> content_failed err w
      | Inr text \<Rightarrow>
          (case content_loaded load text w of
             (w', Some err) \<Rightarrow> content_failed err w'
           | (w', None) \<Rightarrow> w'))"




section \<open>Notions used in the statements\<close>

text \<open>
  \<open>interpolates t g\<close>: the rendering \<open>g x\<close> of a section, as a function of the non-empty
  string \<open>x\<close> held by one of its fields, either throws whatever \<open>x\<close> is, or returns an
  element whose class and identifier do not depend on \<open>x\<close> and whose markup is a fixed
  prefix, then \<open>t x\<close>, then a fixed suffix.
\<close>

definition interpolates :: "(string \<Rightarrow> string) \<Rightarrow> (string \<Rightarrow> js_error + rendered) \<Rightarrow> bool" where
  "interpolates t g \<longleftrightarrow>
     (\<exists>e. \<forall>x. g x = Inl e) \<or>
     (\<exists>cls i pre post. \<forall>x. x \<noteq> '''' \<longrightarrow>
        g x = Inr (Node \<lparr>className = cls, elem_id = i, innerHTML = pre @ t x @ post\<rparr>))"

text \<open>
  \<open>hole t h\<close>: the markup \<open>h x\<close>, as a function of the non-empty string \<open>x\<close>, is a
  fixed prefix, then \<open>t x\<close>, then a fixed suffix.
\<close>

definition hole :: "(string \<Rightarrow> string) \<Rightarrow> (string \<Rightarrow> string) \<Rightarrow> bool" where
  "hole t h \<longleftrightarrow> (\<exists>pre post. \<forall>x. x \<noteq> [] \<longrightarrow> h x = pre @ t x @ post)"

text \<open>The escaping of a string, and the escaping spelled out character by character.\<close>

definition esc_str :: "string \<Rightarrow> string" where
  "esc_str x = esc (JStr x)"

definition entity_of :: "char \<Rightarrow> string" where
  "entity_of c =
     (if c = CHR ''&'' then ''&amp;''
      else if c = CHR ''<'' then ''&lt;''
      else if c = CHR ''>'' then ''&gt;''
      else if c = CHR 0x22 then ''&quot;''
      else [c])"

text \<open>A section with the given entries before those of \<open>kvs\<close>.\<close>

definition with_field :: "string \<Rightarrow> jsval \<Rightarrow> (string \<times> jsval) list \<Rightarrow> jsval" where
  "with_field f v kvs = JObj ((f, v) # kvs)"

text \<open>
  A section whose \<^verbatim>\<open>items\<close> hold, between the items \<open>bs\<close> and \<open>as\<close>, an item with the
  string \<open>x\<close> in its field \<open>f\<close>.
\<close>

definition with_item_field ::
  "jsval list \<Rightarrow> string \<Rightarrow> string \<Rightarrow> (string \<times> jsval) list \<Rightarrow> jsval list \<Rightarrow>
   (string \<times> jsval) list \<Rightarrow> jsval" where
  "with_item_field bs f x item as kvs =
     JObj ((''items'', JArr (bs @ [JObj ((f, JStr x) # item)] @ as)) # kvs)"

text \<open>
  The fields that the renderers pass through \<open>esc\<close>, by section type: the fields of
  the section itself, and the fields of its items. The last table holds the fields that
  are link destinations; its second component tells whether the field is one of an item.
\<close>

definition escaped_section_fields :: "(string \<times> string) list" where
  "escaped_section_fields =
     [(''hero'', ''heading''), (''hero'', ''subheading''),
      (''page-header'', ''heading''), (''page-header'', ''subheading''),
      (''summary'', ''label''),
      (''statement'', ''body''),
      (''text-block'', ''label''),
      (''definition-list'', ''label''),
      (''activity-list'', ''label''),
      (''persons'', ''label''),
      (''contact-block'', ''label''),
      (''link'', ''url''), (''link'', ''label''),
      (''back-link'', ''url''), (''back-link'', ''label''),
      (''legal-nav'', ''label''),
      (''legal-document'', ''last_updated'')]"

definition escaped_item_fields :: "(string \<times> string) list" where
  "escaped_item_fields =
     [(''summary'', ''label''), (''summary'', ''value''),
      (''definition-list'', ''term''), (''definition-list'', ''definition''),
      (''activity-list'', ''heading''), (''activity-list'', ''description''),
      (''persons'', ''name''), (''persons'', ''title''), (''persons'', ''bio''),
      (''contact-block'', ''method''), (''contact-block'', ''value''), (''contact-block'', ''href''),
      (''legal-nav'', ''url''), (''legal-nav'', ''label'')]"

definition link_section_fields :: "(string \<times> string) list" where
  "link_section_fields = [(''link'', ''url''), (''back-link'', ''url'')]"

definition link_item_fields :: "(string \<times> string) list" where
  "link_item_fields = [(''contact-block'', ''href''), (''legal-nav'', ''url'')]"



section \<open>Properties of the path normaliser\<close>

lemma set_bit5_not_slash: "set_bit5 c = CHR ''/'' \<Longrightarrow> \<not> is_upper c"
  by (cases c) (simp add: is_upper_def)

lemma lower_char_slash: "(lower_char c = CHR ''/'') = (c = CHR ''/'')"
proof (cases "is_upper c")
  case True
  then have "c \<noteq> CHR ''/''" by (auto simp: is_upper_def)
  with True show ?thesis using set_bit5_not_slash [of c] by (auto simp: lower_char_def)
next
  case False
  then show ?thesis by (simp add: lower_char_def)
qed

lemma set_bit5_not_upper: "\<not> is_upper (set_bit5 c)"
  by (cases c) (simp add: is_upper_def)

lemma lower_char_idem: "lower_char (lower_char c) = lower_char c"
  by (simp add: lower_char_def set_bit5_not_upper)

lemma toLowerCase_idem: "toLowerCase (toLowerCase s) = toLowerCase s"
  by (simp add: toLowerCase_def lower_char_idem)

lemma strip_append_slashes:
  "strip_trailing_slashes (p @ replicate n CHR ''/'') = strip_trailing_slashes p"
  by (simp add: strip_trailing_slashes_def dropWhile_append)

lemma dropWhile_map_lower:
  "dropWhile (\<lambda>c. c = CHR ''/'') (map lower_char xs) = map lower_char (dropWhile (\<lambda>c. c = CHR ''/'') xs)"
  by (induction xs) (simp_all add: lower_char_slash)

lemma strip_toLowerCase:
  "strip_trailing_slashes (toLowerCase p) = toLowerCase (strip_trailing_slashes p)"
  by (simp add: strip_trailing_slashes_def toLowerCase_def rev_map dropWhile_map_lower)

lemma strip_decompose:
  "\<exists>n. p = strip_trailing_slashes p @ replicate n CHR ''/''"
proof -
  have "\<exists>n. xs = replicate n CHR ''/'' @ dropWhile (\<lambda>c. c = CHR ''/'') xs" for xs
  proof (induction xs)
    case Nil show ?case by simp
  next
    case (Cons a xs)
    then obtain n where n: "xs = replicate n CHR ''/'' @ dropWhile (\<lambda>c. c = CHR ''/'') xs" by blast
    show ?case
    proof (cases "a = CHR ''/''")
      case True
      with n have "a # xs = replicate (Suc n) CHR ''/'' @ dropWhile (\<lambda>c. c = CHR ''/'') (a # xs)" by simp
      then show ?thesis by blast
    next
      case False
      then have "a # xs = replicate 0 CHR ''/'' @ dropWhile (\<lambda>c. c = CHR ''/'') (a # xs)" by simp
      then show ?thesis by blast
    qed
  qed
  then obtain n where "rev p = replicate n CHR ''/'' @ dropWhile (\<lambda>c. c = CHR ''/'') (rev p)" by blast
  then have "rev (rev p) = rev (replicate n CHR ''/'' @ dropWhile (\<lambda>c. c = CHR ''/'') (rev p))" by simp
  then have "p = strip_trailing_slashes p @ replicate n CHR ''/''"
    by (simp add: strip_trailing_slashes_def)
  then show ?thesis by blast
qed

lemma strip_no_trailing:
  "strip_trailing_slashes p = [] \<or> last (strip_trailing_slashes p) \<noteq> CHR ''/''"
proof (cases "dropWhile (\<lambda>c. c = CHR ''/'') (rev p) = []")
  case True
  then show ?thesis by (simp add: strip_trailing_slashes_def)
next
  case False
  then have "hd (dropWhile (\<lambda>c. c = CHR ''/'') (rev p)) \<noteq> CHR ''/''"
    using hd_dropWhile [of "\<lambda>c. c = CHR ''/''" "rev p"] by blast
  with False show ?thesis
    by (simp add: strip_trailing_slashes_def last_rev)
qed

text \<open>
  C3: \<open>normalisePath\<close> is total, removes the whole run of trailing slashes, lower-cases
  what is left and returns \<open>/\<close> when nothing is left. Hence two paths that differ only
  in letter case and in the number of trailing slashes have the same canonical key; the
  result is never empty, has no trailing slash unless it is the root, and is lower-case.
  \<open>/About/\<close>, \<open>/about\<close> and \<open>/ABOUT\<close> all give \<open>/about\<close>.
\<close>

theorem normalisePath_canonical:
  assumes "toLowerCase p = toLowerCase q"
  shows "normalisePath (p @ replicate m CHR ''/'') = normalisePath (q @ replicate n CHR ''/'')
    \<and> normalisePath p \<noteq> ''''
    \<and> (normalisePath p = ''/'' \<or> last (normalisePath p) \<noteq> CHR ''/'')
    \<and> toLowerCase (normalisePath p) = normalisePath p
    \<and> (\<exists>k. p = strip_trailing_slashes p @ replicate k CHR ''/'' \<and>
           normalisePath p =
             (if strip_trailing_slashes p = '''' then ''/''
              else toLowerCase (strip_trailing_slashes p)))
    \<and> normalisePath ''/About/'' = ''/about'' \<and> normalisePath ''/about'' = ''/about''
    \<and> normalisePath ''/ABOUT'' = ''/about''"
proof -
  have "toLowerCase (strip_trailing_slashes p) = toLowerCase (strip_trailing_slashes q)"
    using assms by (simp add: strip_toLowerCase [symmetric])
  then have a: "normalisePath (p @ replicate m CHR ''/'') = normalisePath (q @ replicate n CHR ''/'')"
    by (simp add: normalisePath_def strip_append_slashes)
  have b: "normalisePath p \<noteq> ''''"
    by (simp add: normalisePath_def Let_def)
  have c: "normalisePath p = ''/'' \<or> last (normalisePath p) \<noteq> CHR ''/''"
  proof (cases "strip_trailing_slashes p = []")
    case True
    then show ?thesis by (simp add: normalisePath_def toLowerCase_def)
  next
    case False
    with strip_no_trailing [of p] have "last (strip_trailing_slashes p) \<noteq> CHR ''/''" by blast
    with False show ?thesis
      by (simp add: normalisePath_def Let_def toLowerCase_def last_map lower_char_slash)
  qed
  have low: "toLowerCase ''/'' = ''/''"
    by (simp add: toLowerCase_def lower_char_def is_upper_def)
  have d: "toLowerCase (normalisePath p) = normalisePath p"
    by (simp add: normalisePath_def Let_def toLowerCase_idem low)
  have e: "\<exists>k. p = strip_trailing_slashes p @ replicate k CHR ''/'' \<and>
           normalisePath p =
             (if strip_trailing_slashes p = '''' then ''/''
              else toLowerCase (strip_trailing_slashes p))"
  proof -
    obtain k where "p = strip_trailing_slashes p @ replicate k CHR ''/''"
      using strip_decompose [of p] by blast
    moreover have "normalisePath p =
             (if strip_trailing_slashes p = '''' then ''/''
              else toLowerCase (strip_trailing_slashes p))"
      by (simp add: normalisePath_def Let_def toLowerCase_def)
    ultimately show ?thesis by blast
  qed
  have f: "normalisePath ''/About/'' = ''/about'' \<and> normalisePath ''/about'' = ''/about'' \<and>
         normalisePath ''/ABOUT'' = ''/about''"
    by (simp add: normalisePath_def toLowerCase_def strip_trailing_slashes_def lower_char_def is_upper_def)
  from a b c d e f show ?thesis by blast
qed

theorem normalisePath_canonical_witness:
  "toLowerCase ''/About'' = toLowerCase ''/ABOUT'' \<and>
   normalisePath (''/About'' @ replicate 2 CHR ''/'') = normalisePath (''/ABOUT'' @ replicate 0 CHR ''/'') \<and>
   normalisePath ''/About'' \<noteq> ''''"
proof -
  have h: "toLowerCase ''/About'' = toLowerCase ''/ABOUT''"
    by (simp add: toLowerCase_def lower_char_def is_upper_def)
  from normalisePath_canonical [OF h, of 2 0] h show ?thesis by blast
qed

text \<open>
  C7: every key of \<open>CONTENT_MAP\<close> is already in normalised form: \<open>normalisePath\<close>
  returns it unchanged.
\<close>

theorem content_map_keys_normalised:
  "\<forall>k \<in> set (map fst CONTENT_MAP). normalisePath k = k"
  by (simp add: CONTENT_MAP_def normalisePath_def toLowerCase_def strip_trailing_slashes_def
      lower_char_def is_upper_def)

theorem content_map_keys_normalised_witness:
  "''/legal/privacy-policy'' \<in> set (map fst CONTENT_MAP) \<and>
   normalisePath ''/legal/privacy-policy'' = ''/legal/privacy-policy''"
proof -
  have mem: "''/legal/privacy-policy'' \<in> set (map fst CONTENT_MAP)"
    by (simp add: CONTENT_MAP_def)
  with content_map_keys_normalised show ?thesis by blast
qed
section \<open>Properties of the escaping\<close>

lemma replace_all_Nil: "replace_all c r [] = []"
  by (simp add: replace_all_def)

lemma replace_all_Cons:
  "replace_all c r (x # xs) = (if x = c then r else [x]) @ replace_all c r xs"
  by (simp add: replace_all_def)

lemma replace_all_append:
  "replace_all c r (xs @ ys) = replace_all c r xs @ replace_all c r ys"
  by (simp add: replace_all_def)

lemma esc_str_Nil: "esc_str [] = []"
  by (simp add: esc_str_def esc_def replace_all_Nil)

lemma esc_str_Cons: "esc_str (c # cs) = entity_of c @ esc_str cs"
  by (simp add: esc_str_def esc_def entity_of_def replace_all_Cons replace_all_append replace_all_Nil)

lemma esc_str_entities: "esc_str s = concat (map entity_of s)"
  by (induction s) (simp_all add: esc_str_Nil esc_str_Cons)

lemma esc_JStr: "esc (JStr x) = esc_str x"
  by (simp add: esc_str_def)


lemma entity_of_no_reserved:
  "c \<in> set (entity_of d) \<Longrightarrow> c \<noteq> CHR ''<'' \<and> c \<noteq> CHR ''>'' \<and> c \<noteq> CHR 0x22"
  by (auto simp: entity_of_def split: if_splits)

lemma esc_str_no_reserved:
  "c \<in> set (esc_str s) \<Longrightarrow> c \<noteq> CHR ''<'' \<and> c \<noteq> CHR ''>'' \<and> c \<noteq> CHR 0x22"
  using entity_of_no_reserved by (fastforce simp: esc_str_entities)

section \<open>Properties of the renderers\<close>

subsection \<open>Dispatch\<close>

lemma and_then_Inl: "and_then (Inl e) f = Inl e"
  by (simp add: and_then_def)

lemma and_then_Inr: "and_then (Inr x) f = f x"
  by (simp add: and_then_def)

lemma lookup_renderers:
  "lookup_member renderers ''hero'' = Own hero"
  "lookup_member renderers ''page-header'' = Own page_header"
  "lookup_member renderers ''summary'' = Own summary"
  "lookup_member renderers ''statement'' = Own statement"
  "lookup_member renderers ''text-block'' = Own text_block"
  "lookup_member renderers ''definition-list'' = Own definition_list"
  "lookup_member renderers ''activity-list'' = Own activity_list"
  "lookup_member renderers ''persons'' = Own persons"
  "lookup_member renderers ''contact-block'' = Own contact_block"
  "lookup_member renderers ''link'' = Own link"
  "lookup_member renderers ''back-link'' = Own back_link"
  "lookup_member renderers ''legal-nav'' = Own legal_nav"
  "lookup_member renderers ''legal-document'' = Own legal_document"
  by (simp_all add: lookup_member_def renderers_def)

lemma renderSection_own:
  assumes "get_prop (JObj kvs) ''type'' = JStr t" and "lookup_member renderers t = Own r"
  shows "renderSection (JObj kvs) = and_then (r (JObj kvs)) (\<lambda>el. Inr (Node el))"
  using assms by (simp add: renderSection_def and_then_Inr)

lemma get_prop_with_field:
  "get_prop (with_field f v kvs) k = (if k = f then v else get_prop (JObj kvs) k)"
  by (simp add: with_field_def)

lemma get_prop_with_item_field:
  "get_prop (with_item_field bs f x item as kvs) k =
     (if k = ''items'' then JArr (bs @ [JObj ((f, JStr x) # item)] @ as)
      else get_prop (JObj kvs) k)"
  by (simp add: with_item_field_def)

lemma createSection_cong:
  assumes "get_prop s ''type'' = get_prop s' ''type''" and "get_prop s ''id'' = get_prop s' ''id''"
  shows "createSection s = createSection s'"
  using assms by (simp add: createSection_def cong: if_cong)

lemma createSection_with_field:
  "f \<noteq> ''type'' \<Longrightarrow> f \<noteq> ''id'' \<Longrightarrow> createSection (with_field f v kvs) = createSection (JObj kvs)"
  by (rule createSection_cong) (simp_all add: get_prop_with_field)

lemma createSection_with_item_field:
  "createSection (with_item_field bs f x item as kvs) = createSection (JObj kvs)"
  by (rule createSection_cong) (simp_all add: get_prop_with_item_field)

subsection \<open>Holes in the markup\<close>

lemma hole_base: "hole t (\<lambda>x. t x)"
proof -
  have "\<forall>x. x \<noteq> [] \<longrightarrow> t x = [] @ t x @ []" by simp
  then show ?thesis unfolding hole_def by blast
qed

lemma hole_pre: "hole t h \<Longrightarrow> hole t (\<lambda>x. a @ h x)"
proof -
  assume "hole t h"
  then obtain pre post where "\<forall>x. x \<noteq> [] \<longrightarrow> h x = pre @ t x @ post"
    unfolding hole_def by blast
  then have "\<forall>x. x \<noteq> [] \<longrightarrow> a @ h x = (a @ pre) @ t x @ post" by simp
  then show ?thesis unfolding hole_def by blast
qed

lemma hole_post: "hole t h \<Longrightarrow> hole t (\<lambda>x. h x @ b)"
proof -
  assume "hole t h"
  then obtain pre post where "\<forall>x. x \<noteq> [] \<longrightarrow> h x = pre @ t x @ post"
    unfolding hole_def by blast
  then have "\<forall>x. x \<noteq> [] \<longrightarrow> h x @ b = pre @ t x @ (post @ b)" by simp
  then show ?thesis unfolding hole_def by blast
qed

lemma hole_cons: "hole t h \<Longrightarrow> hole t (\<lambda>x. c # h x)"
  using hole_pre [of t h "[c]"] by simp

lemma hole_nonempty: "hole t h \<Longrightarrow> hole t (\<lambda>x. if x = [] then k x else h x)"
proof -
  assume "hole t h"
  then obtain pre post where "\<forall>x. x \<noteq> [] \<longrightarrow> h x = pre @ t x @ post"
    unfolding hole_def by blast
  then have "\<forall>x. x \<noteq> [] \<longrightarrow> (if x = [] then k x else h x) = pre @ t x @ post" by simp
  then show ?thesis unfolding hole_def by blast
qed

lemma hole_nonempty': "hole t h \<Longrightarrow> hole t (\<lambda>x. if x \<noteq> [] then h x else k x)"
proof -
  assume "hole t h"
  then obtain pre post where "\<forall>x. x \<noteq> [] \<longrightarrow> h x = pre @ t x @ post"
    unfolding hole_def by blast
  then have "\<forall>x. x \<noteq> [] \<longrightarrow> (if x \<noteq> [] then h x else k x) = pre @ t x @ post" by simp
  then show ?thesis unfolding hole_def by blast
qed

lemma hole_if: "hole t h1 \<Longrightarrow> hole t h2 \<Longrightarrow> hole t (\<lambda>x. if c then h1 x else h2 x)"
  by (cases c) (simp_all add: hole_def)

lemmas hole_rules = hole_nonempty hole_nonempty' hole_if hole_cons hole_pre hole_post hole_base

lemma esc_js_or_str:
  "esc (js_or (JStr x) (JStr d)) = (if x = [] then esc_str d else esc_str x)"
  by (simp add: js_or_def esc_str_def)

lemmas markup_simps = get_prop_with_field esc_js_or_str esc_JStr

lemma interpolates_throws: "(\<And>x. g x = Inl e) \<Longrightarrow> interpolates t g"
  by (auto simp: interpolates_def)

lemma interpolates_element:
  assumes "\<And>x. g x = Inr (Node (el\<lparr>innerHTML := h x\<rparr>))" and "hole t h"
  shows "interpolates t g"
proof -
  obtain pre post where h: "\<forall>x. x \<noteq> [] \<longrightarrow> h x = pre @ t x @ post"
    using assms(2) unfolding hole_def by blast
  have "\<forall>x. x \<noteq> '''' \<longrightarrow>
      g x = Inr (Node \<lparr>className = className el, elem_id = elem_id el,
                       innerHTML = pre @ t x @ post\<rparr>)"
    using assms(1) h by simp
  then show ?thesis unfolding interpolates_def by blast
qed

text \<open>A renderer that creates the element and then assigns the markup.\<close>

lemma interpolates_created:
  assumes "\<And>x. g x = and_then (createSection s) (\<lambda>el. Inr (Node (el\<lparr>innerHTML := h x\<rparr>)))"
    and "hole t h"
  shows "interpolates t g"
proof (cases "createSection s")
  case (Inl e)
  then have "\<And>x. g x = Inl e" using assms(1) by (simp add: and_then_Inl)
  then show ?thesis by (rule interpolates_throws)
next
  case (Inr el)
  then have "\<And>x. g x = Inr (Node (el\<lparr>innerHTML := h x\<rparr>))"
    using assms(1) by (simp add: and_then_Inr)
  then show ?thesis using assms(2) by (rule interpolates_element)
qed

text \<open>A field of a section rendered by a renderer without items.\<close>

lemma section_field:
  assumes shape: "\<And>s. r s = and_then (createSection s) (\<lambda>el. Inr (el\<lparr>innerHTML := m s\<rparr>))"
    and reg: "lookup_member renderers ty = Own r"
    and ty: "get_prop (JObj kvs) ''type'' = JStr ty"
    and f: "f \<noteq> ''type''" "f \<noteq> ''id''"
    and h: "hole t (\<lambda>x. m (with_field f (JStr x) kvs))"
  shows "interpolates t (\<lambda>x. renderSection (with_field f (JStr x) kvs))"
proof (rule interpolates_created [where s = "JObj kvs", OF _ h])
  fix x
  have "get_prop (JObj ((f, JStr x) # kvs)) ''type'' = JStr ty"
    using ty f by simp
  then have "renderSection (JObj ((f, JStr x) # kvs)) =
      and_then (r (JObj ((f, JStr x) # kvs))) (\<lambda>el. Inr (Node el))"
    using reg by (rule renderSection_own)
  then show "renderSection (with_field f (JStr x) kvs) =
      and_then (createSection (JObj kvs))
        (\<lambda>el. Inr (Node (el\<lparr>innerHTML := m (with_field f (JStr x) kvs)\<rparr>)))"
    using createSection_with_field [OF f, of "JStr x" kvs]
    by (simp add: with_field_def shape and_then_def split: sum.splits)
qed

text \<open>A field of a section rendered by a renderer with items.\<close>

lemma items_markup_with_field:
  "f \<noteq> ''items'' \<Longrightarrow> items_markup (with_field f v kvs) itemf = items_markup (JObj kvs) itemf"
  by (simp add: items_markup_def get_prop_with_field)

lemma list_section_field:
  assumes shape: "\<And>s. r s =
      and_then (items_markup s itemf) (\<lambda>items.
      and_then (createSection s) (\<lambda>el. Inr (el\<lparr>innerHTML := m s items\<rparr>)))"
    and reg: "lookup_member renderers ty = Own r"
    and ty: "get_prop (JObj kvs) ''type'' = JStr ty"
    and f: "f \<noteq> ''type''" "f \<noteq> ''id''" "f \<noteq> ''items''"
    and h: "\<And>items. hole t (\<lambda>x. m (with_field f (JStr x) kvs) items)"
  shows "interpolates t (\<lambda>x. renderSection (with_field f (JStr x) kvs))"
proof -
  have rs: "renderSection (with_field f (JStr x) kvs) =
      and_then (items_markup (JObj kvs) itemf) (\<lambda>items.
      and_then (createSection (JObj kvs))
        (\<lambda>el. Inr (Node (el\<lparr>innerHTML := m (with_field f (JStr x) kvs) items\<rparr>))))" for x
  proof -
    have "get_prop (JObj ((f, JStr x) # kvs)) ''type'' = JStr ty"
      using ty f by simp
    then have "renderSection (JObj ((f, JStr x) # kvs)) =
        and_then (r (JObj ((f, JStr x) # kvs))) (\<lambda>el. Inr (Node el))"
      using reg by (rule renderSection_own)
    then show ?thesis
      using createSection_with_field [OF f(1,2), of "JStr x" kvs]
        items_markup_with_field [OF f(3), of "JStr x" kvs itemf]
      by (simp add: with_field_def shape and_then_def split: sum.splits)
  qed
  show ?thesis
  proof (cases "items_markup (JObj kvs) itemf")
    case (Inl e)
    then have "\<And>x. renderSection (with_field f (JStr x) kvs) = Inl e"
      by (simp add: rs and_then_Inl)
    then show ?thesis by (rule interpolates_throws)
  next
    case (Inr items)
    show ?thesis
      by (rule interpolates_created [where s = "JObj kvs", OF _ h [of items]])
        (simp add: rs Inr and_then_Inr)
  qed
qed

text \<open>A field of an item.\<close>

lemma map_result_append:
  "map_result f (xs @ ys) =
     and_then (map_result f xs) (\<lambda>a. and_then (map_result f ys) (\<lambda>b. Inr (a @ b)))"
  by (induction xs) (simp_all add: and_then_def split: sum.splits)

lemma item_field:
  assumes shape: "\<And>s. r s =
      and_then (items_markup s itemf) (\<lambda>items.
      and_then (createSection s) (\<lambda>el. Inr (el\<lparr>innerHTML := m s items\<rparr>)))"
    and reg: "lookup_member renderers ty = Own r"
    and ty: "get_prop (JObj kvs) ''type'' = JStr ty"
    and item: "\<And>x. itemf (JObj ((f, JStr x) # it)) = Inr (im x)"
    and him: "hole t im"
    and hm: "\<And>h B A. hole t h \<Longrightarrow>
               hole t (\<lambda>x. m (with_item_field bs f x it as kvs) (B @ h x @ A))"
  shows "interpolates t (\<lambda>x. renderSection (with_item_field bs f x it as kvs))"
proof -
  let ?s = "\<lambda>x. with_item_field bs f x it as kvs"
  have rs: "renderSection (?s x) =
      and_then (map_result itemf bs) (\<lambda>B.
      and_then (map_result itemf as) (\<lambda>A.
      and_then (createSection (JObj kvs))
        (\<lambda>el. Inr (Node (el\<lparr>innerHTML := m (?s x) (concat B @ im x @ concat A)\<rparr>)))))" for x
  proof -
    have "get_prop (JObj ((''items'', JArr (bs @ [JObj ((f, JStr x) # it)] @ as)) # kvs)) ''type'' = JStr ty"
      using ty by simp
    then have "renderSection (JObj ((''items'', JArr (bs @ [JObj ((f, JStr x) # it)] @ as)) # kvs)) =
        and_then (r (JObj ((''items'', JArr (bs @ [JObj ((f, JStr x) # it)] @ as)) # kvs)))
          (\<lambda>el. Inr (Node el))"
      using reg by (rule renderSection_own)
    then have "renderSection (?s x) = and_then (r (?s x)) (\<lambda>el. Inr (Node el))"
      by (simp add: with_item_field_def)
    moreover have "items_markup (?s x) itemf =
        and_then (map_result itemf bs) (\<lambda>B.
        and_then (map_result itemf as) (\<lambda>A. Inr (concat B @ im x @ concat A)))"
      by (simp add: items_markup_def get_prop_with_item_field js_or_def array_map_def
          map_result_append item and_then_def split: sum.splits)
    ultimately show ?thesis
      using createSection_with_item_field [of bs f x it as kvs]
      by (simp add: shape and_then_def split: sum.splits)
  qed
  show ?thesis
  proof (cases "map_result itemf bs")
    case (Inl e)
    then have "\<And>x. renderSection (?s x) = Inl e" by (simp add: rs and_then_Inl)
    then show ?thesis by (rule interpolates_throws)
  next
    case B: (Inr B)
    show ?thesis
    proof (cases "map_result itemf as")
      case (Inl e)
      then have "\<And>x. renderSection (?s x) = Inl e" by (simp add: rs B and_then_Inl and_then_Inr)
      then show ?thesis by (rule interpolates_throws)
    next
      case A: (Inr A)
      show ?thesis
        by (rule interpolates_created [where s = "JObj kvs", OF _ hm [OF him, of "concat B" "concat A"]])
          (simp add: rs A B and_then_Inr)
    qed
  qed
qed

subsection \<open>The fields of each section type\<close>

lemma hero_heading_escaped:
  assumes "get_prop (JObj kvs) ''type'' = JStr ''hero''"
  shows "interpolates esc_str (\<lambda>x. renderSection (with_field ''heading'' (JStr x) kvs))"
  by (rule section_field [where r = hero and m = hero_markup, OF hero_def lookup_renderers(1) assms])
     (auto simp: hero_markup_def sectionLabel_def markup_simps cong: if_cong intro!: hole_rules)

lemma hero_subheading_escaped:
  assumes "get_prop (JObj kvs) ''type'' = JStr ''hero''"
  shows "interpolates esc_str (\<lambda>x. renderSection (with_field ''subheading'' (JStr x) kvs))"
  by (rule section_field [where r = hero and m = hero_markup, OF hero_def lookup_renderers(1) assms])
     (auto simp: hero_markup_def sectionLabel_def markup_simps cong: if_cong intro!: hole_rules)

lemma page_header_heading_escaped:
  assumes "get_prop (JObj kvs) ''type'' = JStr ''page-header''"
  shows "interpolates esc_str (\<lambda>x. renderSection (with_field ''heading'' (JStr x) kvs))"
  by (rule section_field [where r = page_header and m = page_header_markup, OF page_header_def lookup_renderers(2) assms])
     (auto simp: page_header_markup_def sectionLabel_def markup_simps cong: if_cong intro!: hole_rules)

lemma page_header_subheading_escaped:
  assumes "get_prop (JObj kvs) ''type'' = JStr ''page-header''"
  shows "interpolates esc_str (\<lambda>x. renderSection (with_field ''subheading'' (JStr x) kvs))"
  by (rule section_field [where r = page_header and m = page_header_markup, OF page_header_def lookup_renderers(2) assms])
     (auto simp: page_header_markup_def sectionLabel_def markup_simps cong: if_cong intro!: hole_rules)

lemma statement_body_escaped:
  assumes "get_prop (JObj kvs) ''type'' = JStr ''statement''"
  shows "interpolates esc_str (\<lambda>x. renderSection (with_field ''body'' (JStr x) kvs))"
  by (rule section_field [where r = statement and m = statement_markup, OF statement_def lookup_renderers(4) assms])
     (auto simp: statement_markup_def sectionLabel_def markup_simps cong: if_cong intro!: hole_rules)

lemma text_block_label_escaped:
  assumes "get_prop (JObj kvs) ''type'' = JStr ''text-block''"
  shows "interpolates esc_str (\<lambda>x. renderSection (with_field ''label'' (JStr x) kvs))"
  by (rule section_field [where r = text_block and m = text_block_markup, OF text_block_def lookup_renderers(5) assms])
     (auto simp: text_block_markup_def sectionLabel_def markup_simps cong: if_cong intro!: hole_rules)

lemma link_url_escaped:
  assumes "get_prop (JObj kvs) ''type'' = JStr ''link''"
  shows "interpolates esc_str (\<lambda>x. renderSection (with_field ''url'' (JStr x) kvs))"
  by (rule section_field [where r = link and m = link_markup, OF link_def lookup_renderers(10) assms])
     (auto simp: link_markup_def sectionLabel_def markup_simps cong: if_cong intro!: hole_rules)

lemma link_label_escaped:
  assumes "get_prop (JObj kvs) ''type'' = JStr ''link''"
  shows "interpolates esc_str (\<lambda>x. renderSection (with_field ''label'' (JStr x) kvs))"
  by (rule section_field [where r = link and m = link_markup, OF link_def lookup_renderers(10) assms])
     (auto simp: link_markup_def sectionLabel_def markup_simps cong: if_cong intro!: hole_rules)

lemma back_link_url_escaped:
  assumes "get_prop (JObj kvs) ''type'' = JStr ''back-link''"
  shows "interpolates esc_str (\<lambda>x. renderSection (with_field ''url'' (JStr x) kvs))"
  by (rule section_field [where r = back_link and m = back_link_markup, OF back_link_def lookup_renderers(11) assms])
     (auto simp: back_link_markup_def sectionLabel_def markup_simps cong: if_cong intro!: hole_rules)

lemma back_link_label_escaped:
  assumes "get_prop (JObj kvs) ''type'' = JStr ''back-link''"
  shows "interpolates esc_str (\<lambda>x. renderSection (with_field ''label'' (JStr x) kvs))"
  by (rule section_field [where r = back_link and m = back_link_markup, OF back_link_def lookup_renderers(11) assms])
     (auto simp: back_link_markup_def sectionLabel_def markup_simps cong: if_cong intro!: hole_rules)

lemma summary_label_escaped:
  assumes "get_prop (JObj kvs) ''type'' = JStr ''summary''"
  shows "interpolates esc_str (\<lambda>x. renderSection (with_field ''label'' (JStr x) kvs))"
  by (rule list_section_field [where r = summary and m = summary_markup and itemf = summary_item,
        OF summary_def lookup_renderers(3) assms])
     (auto simp: summary_markup_def sectionLabel_def markup_simps cong: if_cong intro!: hole_rules)

lemma summary_markup_hole:
  "hole t h \<Longrightarrow> hole t (\<lambda>x. summary_markup (with_item_field bs f x it as kvs) (B @ h x @ A))"
  by (auto simp: summary_markup_def sectionLabel_def get_prop_with_item_field cong: if_cong
      intro!: hole_rules)

lemma summary_item_label_escaped:
  assumes "get_prop (JObj kvs) ''type'' = JStr ''summary''"
  shows "interpolates esc_str (\<lambda>x. renderSection (with_item_field bs ''label'' x it as kvs))"
proof (rule item_field [where r = summary and m = summary_markup and itemf = summary_item
      and im = "\<lambda>x. projr (summary_item (JObj ((''label'', JStr x) # it)))",
      OF summary_def lookup_renderers(3) assms])
  show "summary_item (JObj ((''label'', JStr x) # it)) =
      Inr (projr (summary_item (JObj ((''label'', JStr x) # it))))" for x
    by (simp add: summary_item_def)
  show "hole esc_str (\<lambda>x. projr (summary_item (JObj ((''label'', JStr x) # it))))"
    by (auto simp: summary_item_def Let_def esc_JStr cong: if_cong intro!: hole_rules)
qed (rule summary_markup_hole)

lemma summary_item_value_escaped:
  assumes "get_prop (JObj kvs) ''type'' = JStr ''summary''"
  shows "interpolates esc_str (\<lambda>x. renderSection (with_item_field bs ''value'' x it as kvs))"
proof (rule item_field [where r = summary and m = summary_markup and itemf = summary_item
      and im = "\<lambda>x. projr (summary_item (JObj ((''value'', JStr x) # it)))",
      OF summary_def lookup_renderers(3) assms])
  show "summary_item (JObj ((''value'', JStr x) # it)) =
      Inr (projr (summary_item (JObj ((''value'', JStr x) # it))))" for x
    by (simp add: summary_item_def)
  show "hole esc_str (\<lambda>x. projr (summary_item (JObj ((''value'', JStr x) # it))))"
    by (auto simp: summary_item_def Let_def esc_JStr cong: if_cong intro!: hole_rules)
qed (rule summary_markup_hole)

lemma definition_list_label_escaped:
  assumes "get_prop (JObj kvs) ''type'' = JStr ''definition-list''"
  shows "interpolates esc_str (\<lambda>x. renderSection (with_field ''label'' (JStr x) kvs))"
  by (rule list_section_field [where r = definition_list and m = definition_list_markup and itemf = definition_item,
        OF definition_list_def lookup_renderers(6) assms])
     (auto simp: definition_list_markup_def sectionLabel_def markup_simps cong: if_cong intro!: hole_rules)

lemma definition_list_markup_hole:
  "hole t h \<Longrightarrow> hole t (\<lambda>x. definition_list_markup (with_item_field bs f x it as kvs) (B @ h x @ A))"
  by (auto simp: definition_list_markup_def sectionLabel_def get_prop_with_item_field cong: if_cong
      intro!: hole_rules)

lemma definition_item_term_escaped:
  assumes "get_prop (JObj kvs) ''type'' = JStr ''definition-list''"
  shows "interpolates esc_str (\<lambda>x. renderSection (with_item_field bs ''term'' x it as kvs))"
proof (rule item_field [where r = definition_list and m = definition_list_markup and itemf = definition_item
      and im = "\<lambda>x. projr (definition_item (JObj ((''term'', JStr x) # it)))",
      OF definition_list_def lookup_renderers(6) assms])
  show "definition_item (JObj ((''term'', JStr x) # it)) =
      Inr (projr (definition_item (JObj ((''term'', JStr x) # it))))" for x
    by (simp add: definition_item_def)
  show "hole esc_str (\<lambda>x. projr (definition_item (JObj ((''term'', JStr x) # it))))"
    by (auto simp: definition_item_def Let_def esc_JStr cong: if_cong intro!: hole_rules)
qed (rule definition_list_markup_hole)

lemma definition_item_definition_escaped:
  assumes "get_prop (JObj kvs) ''type'' = JStr ''definition-list''"
  shows "interpolates esc_str (\<lambda>x. renderSection (with_item_field bs ''definition'' x it as kvs))"
proof (rule item_field [where r = definition_list and m = definition_list_markup and itemf = definition_item
      and im = "\<lambda>x. projr (definition_item (JObj ((''definition'', JStr x) # it)))",
      OF definition_list_def lookup_renderers(6) assms])
  show "definition_item (JObj ((''definition'', JStr x) # it)) =
      Inr (projr (definition_item (JObj ((''definition'', JStr x) # it))))" for x
    by (simp add: definition_item_def)
  show "hole esc_str (\<lambda>x. projr (definition_item (JObj ((''definition'', JStr x) # it))))"
    by (auto simp: definition_item_def Let_def esc_JStr cong: if_cong intro!: hole_rules)
qed (rule definition_list_markup_hole)

lemma activity_list_label_escaped:
  assumes "get_prop (JObj kvs) ''type'' = JStr ''activity-list''"
  shows "interpolates esc_str (\<lambda>x. renderSection (with_field ''label'' (JStr x) kvs))"
  by (rule list_section_field [where r = activity_list and m = activity_list_markup and itemf = activity_item,
        OF activity_list_def lookup_renderers(7) assms])
     (auto simp: activity_list_markup_def sectionLabel_def markup_simps cong: if_cong intro!: hole_rules)

lemma activity_list_markup_hole:
  "hole t h \<Longrightarrow> hole t (\<lambda>x. activity_list_markup (with_item_field bs f x it as kvs) (B @ h x @ A))"
  by (auto simp: activity_list_markup_def sectionLabel_def get_prop_with_item_field cong: if_cong
      intro!: hole_rules)

lemma activity_item_heading_escaped:
  assumes "get_prop (JObj kvs) ''type'' = JStr ''activity-list''"
  shows "interpolates esc_str (\<lambda>x. renderSection (with_item_field bs ''heading'' x it as kvs))"
proof (rule item_field [where r = activity_list and m = activity_list_markup and itemf = activity_item
      and im = "\<lambda>x. projr (activity_item (JObj ((''heading'', JStr x) # it)))",
      OF activity_list_def lookup_renderers(7) assms])
  show "activity_item (JObj ((''heading'', JStr x) # it)) =
      Inr (projr (activity_item (JObj ((''heading'', JStr x) # it))))" for x
    by (simp add: activity_item_def)
  show "hole esc_str (\<lambda>x. projr (activity_item (JObj ((''heading'', JStr x) # it))))"
    by (auto simp: activity_item_def Let_def esc_JStr cong: if_cong intro!: hole_rules)
qed (rule activity_list_markup_hole)

lemma activity_item_description_escaped:
  assumes "get_prop (JObj kvs) ''type'' = JStr ''activity-list''"
  shows "interpolates esc_str (\<lambda>x. renderSection (with_item_field bs ''description'' x it as kvs))"
proof (rule item_field [where r = activity_list and m = activity_list_markup and itemf = activity_item
      and im = "\<lambda>x. projr (activity_item (JObj ((''description'', JStr x) # it)))",
      OF activity_list_def lookup_renderers(7) assms])
  show "activity_item (JObj ((''description'', JStr x) # it)) =
      Inr (projr (activity_item (JObj ((''description'', JStr x) # it))))" for x
    by (simp add: activity_item_def)
  show "hole esc_str (\<lambda>x. projr (activity_item (JObj ((''description'', JStr x) # it))))"
    by (auto simp: activity_item_def Let_def esc_JStr cong: if_cong intro!: hole_rules)
qed (rule activity_list_markup_hole)

lemma persons_label_escaped:
  assumes "get_prop (JObj kvs) ''type'' = JStr ''persons''"
  shows "interpolates esc_str (\<lambda>x. renderSection (with_field ''label'' (JStr x) kvs))"
  by (rule list_section_field [where r = persons and m = persons_markup and itemf = person_item,
        OF persons_def lookup_renderers(8) assms])
     (auto simp: persons_markup_def sectionLabel_def markup_simps cong: if_cong intro!: hole_rules)

lemma persons_markup_hole:
  "hole t h \<Longrightarrow> hole t (\<lambda>x. persons_markup (with_item_field bs f x it as kvs) (B @ h x @ A))"
  by (auto simp: persons_markup_def sectionLabel_def get_prop_with_item_field cong: if_cong
      intro!: hole_rules)

lemma person_item_name_escaped:
  assumes "get_prop (JObj kvs) ''type'' = JStr ''persons''"
  shows "interpolates esc_str (\<lambda>x. renderSection (with_item_field bs ''name'' x it as kvs))"
proof (rule item_field [where r = persons and m = persons_markup and itemf = person_item
      and im = "\<lambda>x. projr (person_item (JObj ((''name'', JStr x) # it)))",
      OF persons_def lookup_renderers(8) assms])
  show "person_item (JObj ((''name'', JStr x) # it)) =
      Inr (projr (person_item (JObj ((''name'', JStr x) # it))))" for x
    by (simp add: person_item_def)
  show "hole esc_str (\<lambda>x. projr (person_item (JObj ((''name'', JStr x) # it))))"
    by (auto simp: person_item_def Let_def esc_JStr cong: if_cong intro!: hole_rules)
qed (rule persons_markup_hole)

lemma person_item_title_escaped:
  assumes "get_prop (JObj kvs) ''type'' = JStr ''persons''"
  shows "interpolates esc_str (\<lambda>x. renderSection (with_item_field bs ''title'' x it as kvs))"
proof (rule item_field [where r = persons and m = persons_markup and itemf = person_item
      and im = "\<lambda>x. projr (person_item (JObj ((''title'', JStr x) # it)))",
      OF persons_def lookup_renderers(8) assms])
  show "person_item (JObj ((''title'', JStr x) # it)) =
      Inr (projr (person_item (JObj ((''title'', JStr x) # it))))" for x
    by (simp add: person_item_def)
  show "hole esc_str (\<lambda>x. projr (person_item (JObj ((''title'', JStr x) # it))))"
    by (auto simp: person_item_def Let_def esc_JStr cong: if_cong intro!: hole_rules)
qed (rule persons_markup_hole)

lemma person_item_bio_escaped:
  assumes "get_prop (JObj kvs) ''type'' = JStr ''persons''"
  shows "interpolates esc_str (\<lambda>x. renderSection (with_item_field bs ''bio'' x it as kvs))"
proof (rule item_field [where r = persons and m = persons_markup and itemf = person_item
      and im = "\<lambda>x. projr (person_item (JObj ((''bio'', JStr x) # it)))",
      OF persons_def lookup_renderers(8) assms])
  show "person_item (JObj ((''bio'', JStr x) # it)) =
      Inr (projr (person_item (JObj ((''bio'', JStr x) # it))))" for x
    by (simp add: person_item_def)
  show "hole esc_str (\<lambda>x. projr (person_item (JObj ((''bio'', JStr x) # it))))"
    by (auto simp: person_item_def Let_def esc_JStr cong: if_cong intro!: hole_rules)
qed (rule persons_markup_hole)

lemma contact_block_label_escaped:
  assumes "get_prop (JObj kvs) ''type'' = JStr ''contact-block''"
  shows "interpolates esc_str (\<lambda>x. renderSection (with_field ''label'' (JStr x) kvs))"
  by (rule list_section_field [where r = contact_block and m = contact_block_markup and itemf = contact_item,
        OF contact_block_def lookup_renderers(9) assms])
     (auto simp: contact_block_markup_def sectionLabel_def markup_simps cong: if_cong intro!: hole_rules)

lemma contact_block_markup_hole:
  "hole t h \<Longrightarrow> hole t (\<lambda>x. contact_block_markup (with_item_field bs f x it as kvs) (B @ h x @ A))"
  by (auto simp: contact_block_markup_def sectionLabel_def get_prop_with_item_field cong: if_cong
      intro!: hole_rules)

lemma contact_item_method_escaped:
  assumes "get_prop (JObj kvs) ''type'' = JStr ''contact-block''"
  shows "interpolates esc_str (\<lambda>x. renderSection (with_item_field bs ''method'' x it as kvs))"
proof (rule item_field [where r = contact_block and m = contact_block_markup and itemf = contact_item
      and im = "\<lambda>x. projr (contact_item (JObj ((''method'', JStr x) # it)))",
      OF contact_block_def lookup_renderers(9) assms])
  show "contact_item (JObj ((''method'', JStr x) # it)) =
      Inr (projr (contact_item (JObj ((''method'', JStr x) # it))))" for x
    by (simp add: contact_item_def)
  show "hole esc_str (\<lambda>x. projr (contact_item (JObj ((''method'', JStr x) # it))))"
    by (auto simp: contact_item_def Let_def esc_JStr cong: if_cong intro!: hole_rules)
qed (rule contact_block_markup_hole)

lemma contact_item_value_escaped:
  assumes "get_prop (JObj kvs) ''type'' = JStr ''contact-block''"
  shows "interpolates esc_str (\<lambda>x. renderSection (with_item_field bs ''value'' x it as kvs))"
proof (rule item_field [where r = contact_block and m = contact_block_markup and itemf = contact_item
      and im = "\<lambda>x. projr (contact_item (JObj ((''value'', JStr x) # it)))",
      OF contact_block_def lookup_renderers(9) assms])
  show "contact_item (JObj ((''value'', JStr x) # it)) =
      Inr (projr (contact_item (JObj ((''value'', JStr x) # it))))" for x
    by (simp add: contact_item_def)
  show "hole esc_str (\<lambda>x. projr (contact_item (JObj ((''value'', JStr x) # it))))"
    by (auto simp: contact_item_def Let_def esc_JStr cong: if_cong intro!: hole_rules)
qed (rule contact_block_markup_hole)

lemma contact_item_href_escaped:
  assumes "get_prop (JObj kvs) ''type'' = JStr ''contact-block''"
  shows "interpolates esc_str (\<lambda>x. renderSection (with_item_field bs ''href'' x it as kvs))"
proof (rule item_field [where r = contact_block and m = contact_block_markup and itemf = contact_item
      and im = "\<lambda>x. projr (contact_item (JObj ((''href'', JStr x) # it)))",
      OF contact_block_def lookup_renderers(9) assms])
  show "contact_item (JObj ((''href'', JStr x) # it)) =
      Inr (projr (contact_item (JObj ((''href'', JStr x) # it))))" for x
    by (simp add: contact_item_def)
  show "hole esc_str (\<lambda>x. projr (contact_item (JObj ((''href'', JStr x) # it))))"
    by (auto simp: contact_item_def Let_def esc_JStr cong: if_cong intro!: hole_rules)
qed (rule contact_block_markup_hole)

lemma legal_nav_label_escaped:
  assumes "get_prop (JObj kvs) ''type'' = JStr ''legal-nav''"
  shows "interpolates esc_str (\<lambda>x. renderSection (with_field ''label'' (JStr x) kvs))"
  by (rule list_section_field [where r = legal_nav and m = legal_nav_markup and itemf = legal_nav_item,
        OF legal_nav_def lookup_renderers(12) assms])
     (auto simp: legal_nav_markup_def sectionLabel_def markup_simps cong: if_cong intro!: hole_rules)

lemma legal_nav_markup_hole:
  "hole t h \<Longrightarrow> hole t (\<lambda>x. legal_nav_markup (with_item_field bs f x it as kvs) (B @ h x @ A))"
  by (auto simp: legal_nav_markup_def sectionLabel_def get_prop_with_item_field cong: if_cong
      intro!: hole_rules)

lemma legal_nav_item_url_escaped:
  assumes "get_prop (JObj kvs) ''type'' = JStr ''legal-nav''"
  shows "interpolates esc_str (\<lambda>x. renderSection (with_item_field bs ''url'' x it as kvs))"
proof (rule item_field [where r = legal_nav and m = legal_nav_markup and itemf = legal_nav_item
      and im = "\<lambda>x. projr (legal_nav_item (JObj ((''url'', JStr x) # it)))",
      OF legal_nav_def lookup_renderers(12) assms])
  show "legal_nav_item (JObj ((''url'', JStr x) # it)) =
      Inr (projr (legal_nav_item (JObj ((''url'', JStr x) # it))))" for x
    by (simp add: legal_nav_item_def)
  show "hole esc_str (\<lambda>x. projr (legal_nav_item (JObj ((''url'', JStr x) # it))))"
    by (auto simp: legal_nav_item_def Let_def esc_JStr cong: if_cong intro!: hole_rules)
qed (rule legal_nav_markup_hole)

lemma legal_nav_item_label_escaped:
  assumes "get_prop (JObj kvs) ''type'' = JStr ''legal-nav''"
  shows "interpolates esc_str (\<lambda>x. renderSection (with_item_field bs ''label'' x it as kvs))"
proof (rule item_field [where r = legal_nav and m = legal_nav_markup and itemf = legal_nav_item
      and im = "\<lambda>x. projr (legal_nav_item (JObj ((''label'', JStr x) # it)))",
      OF legal_nav_def lookup_renderers(12) assms])
  show "legal_nav_item (JObj ((''label'', JStr x) # it)) =
      Inr (projr (legal_nav_item (JObj ((''label'', JStr x) # it))))" for x
    by (simp add: legal_nav_item_def)
  show "hole esc_str (\<lambda>x. projr (legal_nav_item (JObj ((''label'', JStr x) # it))))"
    by (auto simp: legal_nav_item_def Let_def esc_JStr cong: if_cong intro!: hole_rules)
qed (rule legal_nav_markup_hole)

lemma text_block_body_escaped:
  assumes "get_prop (JObj kvs) ''type'' = JStr ''text-block''"
  shows "interpolates (\<lambda>x. replace_all (CHR 0x0A) ''<br>'' (esc_str x))
           (\<lambda>x. renderSection (with_field ''body'' (JStr x) kvs))"
  by (rule section_field [where r = text_block and m = text_block_markup,
        OF text_block_def lookup_renderers(5) assms])
     (auto simp: text_block_markup_def sectionLabel_def markup_simps if_distrib [of "replace_all _ _"]
        cong: if_cong intro!: hole_rules)

text \<open>The legal document: its markup is computed after the element is created.\<close>

lemma legal_document_field:
  assumes ty: "get_prop (JObj kvs) ''type'' = JStr ''legal-document''"
    and f: "f \<noteq> ''type''" "f \<noteq> ''id''"
    and mk: "(\<exists>e. \<forall>x. legal_document_markup (with_field f (JStr x) kvs) = Inl e) \<or>
             (\<exists>h. hole t h \<and> (\<forall>x. legal_document_markup (with_field f (JStr x) kvs) = Inr (h x)))"
  shows "interpolates t (\<lambda>x. renderSection (with_field f (JStr x) kvs))"
proof -
  have rs: "renderSection (with_field f (JStr x) kvs) =
      and_then (createSection (JObj kvs)) (\<lambda>el.
      and_then (legal_document_markup (with_field f (JStr x) kvs)) (\<lambda>markup.
        Inr (Node (el\<lparr>innerHTML := markup\<rparr>))))" for x
  proof -
    have "get_prop (JObj ((f, JStr x) # kvs)) ''type'' = JStr ''legal-document''"
      using ty f by simp
    then have "renderSection (JObj ((f, JStr x) # kvs)) =
        and_then (legal_document (JObj ((f, JStr x) # kvs))) (\<lambda>el. Inr (Node el))"
      using lookup_renderers(13) by (rule renderSection_own)
    then show ?thesis
      using createSection_with_field [OF f, of "JStr x" kvs]
      by (simp add: with_field_def legal_document_def and_then_def split: sum.splits)
  qed
  from mk show ?thesis
  proof
    assume "\<exists>e. \<forall>x. legal_document_markup (with_field f (JStr x) kvs) = Inl e"
    then obtain e where e: "\<And>x. legal_document_markup (with_field f (JStr x) kvs) = Inl e"
      by blast
    show ?thesis
    proof (cases "createSection (JObj kvs)")
      case (Inl e')
      then have "\<And>x. renderSection (with_field f (JStr x) kvs) = Inl e'"
        by (simp add: rs and_then_Inl)
      then show ?thesis by (rule interpolates_throws)
    next
      case (Inr el)
      then have "\<And>x. renderSection (with_field f (JStr x) kvs) = Inl e"
        by (simp add: rs e and_then_Inl and_then_Inr)
      then show ?thesis by (rule interpolates_throws)
    qed
  next
    assume "\<exists>h. hole t h \<and> (\<forall>x. legal_document_markup (with_field f (JStr x) kvs) = Inr (h x))"
    then obtain h where h: "hole t h"
      and eq: "\<And>x. legal_document_markup (with_field f (JStr x) kvs) = Inr (h x)"
      by blast
    show ?thesis
      by (rule interpolates_created [where s = "JObj kvs", OF _ h])
        (simp add: rs eq and_then_def split: sum.splits)
  qed
qed

lemma legal_document_last_updated_escaped:
  assumes "get_prop (JObj kvs) ''type'' = JStr ''legal-document''"
  shows "interpolates esc_str (\<lambda>x. renderSection (with_field ''last_updated'' (JStr x) kvs))"
proof (rule legal_document_field [OF assms])
  show "(\<exists>e. \<forall>x. legal_document_markup (with_field ''last_updated'' (JStr x) kvs) = Inl e) \<or>
        (\<exists>h. hole esc_str h \<and>
           (\<forall>x. legal_document_markup (with_field ''last_updated'' (JStr x) kvs) = Inr (h x)))"
  proof (cases "to_string (js_or (get_prop (JObj kvs) ''body'') (JStr ''''))")
    case (Inl e)
    then have "\<forall>x. legal_document_markup (with_field ''last_updated'' (JStr x) kvs) = Inl e"
      by (simp add: legal_document_markup_def get_prop_with_field and_then_Inl)
    then show ?thesis by blast
  next
    case (Inr b)
    let ?h = "\<lambda>x. projr (legal_document_markup (with_field ''last_updated'' (JStr x) kvs))"
    have "\<forall>x. legal_document_markup (with_field ''last_updated'' (JStr x) kvs) = Inr (?h x)"
      using Inr by (simp add: legal_document_markup_def get_prop_with_field and_then_Inr)
    moreover have "hole esc_str ?h"
      using Inr
      by (auto simp: legal_document_markup_def markup_simps and_then_Inr cong: if_cong
          intro!: hole_rules)
    ultimately show ?thesis by blast
  qed
qed simp_all

lemma to_string_body: "to_string (js_or (JStr x) (JStr [])) = Inr x"
  by (cases "x = []") (simp_all add: js_or_def)

lemma legal_document_body_verbatim:
  assumes "get_prop (JObj kvs) ''type'' = JStr ''legal-document''"
  shows "interpolates (\<lambda>x. x) (\<lambda>x. renderSection (with_field ''body'' (JStr x) kvs))"
proof (rule legal_document_field [OF assms])
  let ?h = "\<lambda>x. projr (legal_document_markup (with_field ''body'' (JStr x) kvs))"
  have "\<forall>x. legal_document_markup (with_field ''body'' (JStr x) kvs) = Inr (?h x)"
    by (simp add: legal_document_markup_def get_prop_with_field to_string_body and_then_Inr)
  moreover have "hole (\<lambda>x. x) ?h"
    by (auto simp: legal_document_markup_def get_prop_with_field to_string_body and_then_Inr
        cong: if_cong intro!: hole_rules)
  ultimately show "(\<exists>e. \<forall>x. legal_document_markup (with_field ''body'' (JStr x) kvs) = Inl e) \<or>
        (\<exists>h. hole (\<lambda>x. x) h \<and>
           (\<forall>x. legal_document_markup (with_field ''body'' (JStr x) kvs) = Inr (h x)))"
    by blast
qed simp_all

text \<open>The fallback for a type that is neither registered nor inherited.\<close>

lemma renderSection_absent:
  assumes "to_string (get_prop (JObj kvs) ''type'') = Inr key"
    and "lookup_member renderers key = Absent"
  shows "renderSection (JObj kvs) =
     and_then (createSection (JObj kvs)) (\<lambda>el.
       Inr (Node (el\<lparr>innerHTML := fallback_markup (JObj kvs)\<rparr>)))"
  using assms by (simp add: renderSection_def and_then_Inr)

lemma fallback_body_escaped:
  assumes "to_string (get_prop (JObj kvs) ''type'') = Inr key"
    and "lookup_member renderers key = Absent"
  shows "interpolates esc_str (\<lambda>x. renderSection (with_field ''body'' (JStr x) kvs))"
proof (rule interpolates_created [where s = "JObj kvs"])
  fix x
  have "to_string (get_prop (JObj ((''body'', JStr x) # kvs)) ''type'') = Inr key"
    using assms(1) by simp
  then have "renderSection (JObj ((''body'', JStr x) # kvs)) =
      and_then (createSection (JObj ((''body'', JStr x) # kvs))) (\<lambda>el.
        Inr (Node (el\<lparr>innerHTML := fallback_markup (JObj ((''body'', JStr x) # kvs))\<rparr>)))"
    using assms(2) by (rule renderSection_absent)
  then show "renderSection (with_field ''body'' (JStr x) kvs) =
      and_then (createSection (JObj kvs))
        (\<lambda>el. Inr (Node (el\<lparr>innerHTML := fallback_markup (with_field ''body'' (JStr x) kvs)\<rparr>)))"
    using createSection_with_field [of "''body''" "JStr x" kvs]
    by (simp add: with_field_def)
next
  show "hole esc_str (\<lambda>x. fallback_markup (with_field ''body'' (JStr x) kvs))"
    by (auto simp: fallback_markup_def markup_simps cong: if_cong intro!: hole_rules)
qed

lemmas section_field_lemmas =
  hero_heading_escaped hero_subheading_escaped
  page_header_heading_escaped page_header_subheading_escaped
  summary_label_escaped statement_body_escaped text_block_label_escaped
  definition_list_label_escaped activity_list_label_escaped persons_label_escaped
  contact_block_label_escaped link_url_escaped link_label_escaped
  back_link_url_escaped back_link_label_escaped legal_nav_label_escaped
  legal_document_last_updated_escaped

lemmas item_field_lemmas =
  summary_item_label_escaped summary_item_value_escaped
  definition_item_term_escaped definition_item_definition_escaped
  activity_item_heading_escaped activity_item_description_escaped
  person_item_name_escaped person_item_title_escaped person_item_bio_escaped
  contact_item_method_escaped contact_item_value_escaped contact_item_href_escaped
  legal_nav_item_url_escaped legal_nav_item_label_escaped

lemma section_fields_escaped:
  "\<forall>(ty, f) \<in> set escaped_section_fields. \<forall>kvs.
     get_prop (JObj kvs) ''type'' = JStr ty \<longrightarrow>
     interpolates esc_str (\<lambda>x. renderSection (with_field f (JStr x) kvs))"
  unfolding escaped_section_fields_def
  by (simp add: section_field_lemmas del: get_prop.simps)

lemma item_fields_escaped:
  "\<forall>(ty, f) \<in> set escaped_item_fields. \<forall>bs it as kvs.
     get_prop (JObj kvs) ''type'' = JStr ty \<longrightarrow>
     interpolates esc_str (\<lambda>x. renderSection (with_item_field bs f x it as kvs))"
  unfolding escaped_item_fields_def
  by (simp add: item_field_lemmas del: get_prop.simps)

lemma esc_script: "esc_str ''<script>'' = ''&lt;script&gt;''"
  by (simp add: esc_str_entities entity_of_def)

text \<open>
  C1 (as amended): every string field that a renderer interpolates into the markup goes
  through \<open>esc\<close>, except the \<^verbatim>\<open>body\<close> of a \<^verbatim>\<open>legal-document\<close>, which appears as it is.
  This holds for every field of every registered type, in a section or in one of its
  items, and for the \<^verbatim>\<open>body\<close> of a section of unregistered type; in a \<^verbatim>\<open>text-block\<close>
  the line breaks of the escaped body are then replaced by \<^verbatim>\<open><br>\<close>. \<open>esc\<close> replaces
  the four characters \<^verbatim>\<open>&\<close>, \<^verbatim>\<open><\<close>, \<^verbatim>\<open>>\<close> and the double quote by their entities and leaves
  every other character, so \<^verbatim>\<open><script>\<close> appears as \<^verbatim>\<open>&lt;script&gt;\<close>.
\<close>

theorem string_fields_escaped:
  "(\<forall>(ty, f) \<in> set escaped_section_fields. \<forall>kvs.
      get_prop (JObj kvs) ''type'' = JStr ty \<longrightarrow>
      interpolates esc_str (\<lambda>x. renderSection (with_field f (JStr x) kvs)))
   \<and> (\<forall>(ty, f) \<in> set escaped_item_fields. \<forall>bs it as kvs.
      get_prop (JObj kvs) ''type'' = JStr ty \<longrightarrow>
      interpolates esc_str (\<lambda>x. renderSection (with_item_field bs f x it as kvs)))
   \<and> (\<forall>kvs. get_prop (JObj kvs) ''type'' = JStr ''text-block'' \<longrightarrow>
      interpolates (\<lambda>x. replace_all (CHR 0x0A) ''<br>'' (esc_str x))
        (\<lambda>x. renderSection (with_field ''body'' (JStr x) kvs)))
   \<and> (\<forall>kvs key. to_string (get_prop (JObj kvs) ''type'') = Inr key \<and>
        lookup_member renderers key = Absent \<longrightarrow>
      interpolates esc_str (\<lambda>x. renderSection (with_field ''body'' (JStr x) kvs)))
   \<and> (\<forall>kvs. get_prop (JObj kvs) ''type'' = JStr ''legal-document'' \<longrightarrow>
      interpolates (\<lambda>x. x) (\<lambda>x. renderSection (with_field ''body'' (JStr x) kvs)))
   \<and> (\<forall>s. esc_str s = concat (map entity_of s))
   \<and> esc_str ''<script>'' = ''&lt;script&gt;''
   \<and> replace_all (CHR 0x0A) ''<br>'' (esc_str ''<script>'') = ''&lt;script&gt;''"
proof -
  have "replace_all (CHR 0x0A) ''<br>'' (esc_str ''<script>'') = ''&lt;script&gt;''"
    by (simp add: esc_script replace_all_def)
  with section_fields_escaped item_fields_escaped text_block_body_escaped
    fallback_body_escaped legal_document_body_verbatim esc_str_entities esc_script
  show ?thesis by blast
qed

theorem string_fields_escaped_witness:
  "(''hero'', ''heading'') \<in> set escaped_section_fields \<and>
   get_prop (JObj [(''type'', JStr ''hero'')]) ''type'' = JStr ''hero'' \<and>
   ''<script>'' \<noteq> '''' \<and>
   (\<exists>cls i pre post.
      renderSection (with_field ''heading'' (JStr ''<script>'') [(''type'', JStr ''hero'')]) =
        Inr (Node \<lparr>className = cls, elem_id = i, innerHTML = pre @ ''&lt;script&gt;'' @ post\<rparr>))"
proof -
  let ?g = "\<lambda>x. renderSection (with_field ''heading'' (JStr x) [(''type'', JStr ''hero'')])"
  have mem: "(''hero'', ''heading'') \<in> set escaped_section_fields"
    by (simp add: escaped_section_fields_def)
  have ty: "get_prop (JObj [(''type'', JStr ''hero'')]) ''type'' = JStr ''hero''"
    by simp
  have "interpolates esc_str ?g"
    using string_fields_escaped mem ty by blast
  moreover have "\<exists>el. ?g [] = Inr el"
    by (simp add: with_field_def renderSection_def lookup_renderers hero_def createSection_def
        js_or_def and_then_def)
  ultimately obtain cls i pre post where
    "\<forall>x. x \<noteq> '''' \<longrightarrow>
       ?g x = Inr (Node \<lparr>className = cls, elem_id = i, innerHTML = pre @ esc_str x @ post\<rparr>)"
    unfolding interpolates_def by fastforce
  then have "?g ''<script>'' =
      Inr (Node \<lparr>className = cls, elem_id = i, innerHTML = pre @ esc_str ''<script>'' @ post\<rparr>)"
    by simp
  moreover have "esc_str ''<script>'' = ''&lt;script&gt;''"
    using string_fields_escaped by blast
  ultimately show ?thesis using mem ty by auto
qed

theorem esc_leaves_apostrophe:
  \<open>esc (JStr [CHR 0x27]) = [CHR 0x27] \<and>
   renderSection (JObj [(''type'', JStr ''statement''), (''body'', JStr [CHR 0x27])]) =
     Inr (Node \<lparr>className = ''section section--statement'', elem_id = None,
       innerHTML = ''<div class="section-inner"><p class="statement-body">'' @ [CHR 0x27] @
                   ''</p></div>''\<rparr>)\<close>
  by (simp add: esc_def replace_all_def renderSection_def lookup_renderers statement_def
      statement_markup_def createSection_def js_or_def and_then_def)

text \<open>
  C2 (as amended): the destination of every rendered link (the \<^verbatim>\<open>href\<close> of a
  \<^verbatim>\<open>contact-block\<close> item, the \<^verbatim>\<open>url\<close> of a \<^verbatim>\<open>link\<close> and of a \<^verbatim>\<open>back-link\<close> section,
  the \<^verbatim>\<open>url\<close> of a \<^verbatim>\<open>legal-nav\<close> item) is interpolated through \<open>esc\<close>, like every other
  string field.
\<close>

theorem link_destinations_escaped:
  "(\<forall>(ty, f) \<in> set link_section_fields. \<forall>kvs.
      get_prop (JObj kvs) ''type'' = JStr ty \<longrightarrow>
      interpolates esc_str (\<lambda>x. renderSection (with_field f (JStr x) kvs)))
   \<and> (\<forall>(ty, f) \<in> set link_item_fields. \<forall>bs it as kvs.
      get_prop (JObj kvs) ''type'' = JStr ty \<longrightarrow>
      interpolates esc_str (\<lambda>x. renderSection (with_item_field bs f x it as kvs)))"
  unfolding link_section_fields_def link_item_fields_def
  by (simp add: link_url_escaped back_link_url_escaped contact_item_href_escaped
      legal_nav_item_url_escaped del: get_prop.simps)

theorem link_destinations_escaped_witness:
  "(''link'', ''url'') \<in> set link_section_fields \<and>
   get_prop (JObj [(''type'', JStr ''link'')]) ''type'' = JStr ''link'' \<and>
   ''/?a=1&b=2'' \<noteq> '''' \<and>
   (\<exists>cls i pre post.
      renderSection (with_field ''url'' (JStr ''/?a=1&b=2'') [(''type'', JStr ''link'')]) =
        Inr (Node \<lparr>className = cls, elem_id = i, innerHTML = pre @ ''/?a=1&amp;b=2'' @ post\<rparr>))"
proof -
  let ?g = "\<lambda>x. renderSection (with_field ''url'' (JStr x) [(''type'', JStr ''link'')])"
  have mem: "(''link'', ''url'') \<in> set link_section_fields"
    by (simp add: link_section_fields_def)
  have ty: "get_prop (JObj [(''type'', JStr ''link'')]) ''type'' = JStr ''link''"
    by simp
  have "interpolates esc_str ?g"
    using link_destinations_escaped mem ty by blast
  moreover have "\<exists>el. ?g [] = Inr el"
    by (simp add: with_field_def renderSection_def lookup_renderers link_def createSection_def
        js_or_def and_then_def)
  ultimately obtain cls i pre post where
    "\<forall>x. x \<noteq> '''' \<longrightarrow>
       ?g x = Inr (Node \<lparr>className = cls, elem_id = i, innerHTML = pre @ esc_str x @ post\<rparr>)"
    unfolding interpolates_def by fastforce
  then have "?g ''/?a=1&b=2'' =
      Inr (Node \<lparr>className = cls, elem_id = i, innerHTML = pre @ esc_str ''/?a=1&b=2'' @ post\<rparr>)"
    by simp
  moreover have "esc_str ''/?a=1&b=2'' = ''/?a=1&amp;b=2''"
    by (simp add: esc_str_entities entity_of_def)
  ultimately show ?thesis using mem ty by auto
qed

theorem link_url_not_verbatim:
  \<open>renderSection (JObj [(''type'', JStr ''link''), (''url'', JStr ''/?a=1&b=2'')]) =
     Inr (Node \<lparr>className = ''section section--link'', elem_id = None,
       innerHTML = ''<div class="section-inner"><a href="/?a=1&amp;b=2" class="official-link">Visit Official Website</a></div>''\<rparr>)\<close>
  by (simp add: esc_def replace_all_def renderSection_def lookup_renderers link_def
      link_markup_def createSection_def js_or_def and_then_def)

section \<open>Missing fields, unknown types\<close>

lemma get_prop_absent: "map_of kvs f = None \<Longrightarrow> get_prop (JObj kvs) f = JUndefined"
  by simp

lemma get_prop_empty_first:
  "get_prop (JObj ((f, JStr []) # kvs)) k = (if k = f then JStr [] else get_prop (JObj kvs) k)"
  by simp




subsection \<open>The place of a field in the markup of an item\<close>
























text \<open>
  C4: a section whose type is not registered but names a member of \<^verbatim>\<open>Object.prototype\<close>
  does not reach the fallback. For \<^verbatim>\<open>__proto__\<close> the looked-up value is no function
  and the call throws; for \<^verbatim>\<open>constructor\<close> the call returns the section itself, which
  is no element, so that appending it to the fragment throws.
\<close>

theorem unregistered_type_inherited_member:
  "map_of renderers ''__proto__'' = None
   \<and> map_of renderers ''constructor'' = None
   \<and> renderSection (JObj [(''type'', JStr ''__proto__''), (''body'', JStr ''x'')]) = Inl TypeError
   \<and> renderSection (JObj [(''type'', JStr ''constructor''), (''body'', JStr ''x'')]) =
       Inr (NotANode (JObj [(''type'', JStr ''constructor''), (''body'', JStr ''x'')]))
   \<and> render_sections (JObj [(''sections'',
         JArr [JObj [(''type'', JStr ''constructor''), (''body'', JStr ''x'')]])]) = Inl TypeError"
  by (simp add: renderers_def renderSection_def lookup_member_def object_prototype_keys_def
      call_inherited_def render_sections_def array_map_def js_or_def and_then_def)

text \<open>
  For every other unregistered type the fallback is taken: the section is rendered with
  its escaped \<^verbatim>\<open>body\<close> in a paragraph when the body is truthy, and with an empty
  container otherwise, provided \<open>createSection\<close> does not throw.
\<close>

lemma renderSection_fallback:
  assumes "to_string (get_prop (JObj kvs) ''type'') = Inr key"
    and "map_of renderers key = None" and "key \<notin> set object_prototype_keys"
    and "createSection (JObj kvs) = Inr el"
  shows "renderSection (JObj kvs) =
     Inr (Node (el\<lparr>innerHTML :=
        ''<div class=\"section-inner\">'' @
        (if truthy (get_prop (JObj kvs) ''body'')
         then ''<p>'' @ esc (get_prop (JObj kvs) ''body'') @ ''</p>'' else '''') @
        ''</div>''\<rparr>))"
proof -
  have "lookup_member renderers key = Absent"
    using assms(2,3) by (simp add: lookup_member_def)
  with assms(1) have "renderSection (JObj kvs) =
     and_then (createSection (JObj kvs)) (\<lambda>el.
       Inr (Node (el\<lparr>innerHTML := fallback_markup (JObj kvs)\<rparr>)))"
    by (rule renderSection_absent)
  then show ?thesis
    using assms(4) by (simp add: and_then_Inr fallback_markup_def)
qed

section \<open>Properties of the active navigation marker\<close>

lemma index_from_range: "index_from i h c = - 1 \<or> int i \<le> index_from i h c"
proof (induction c arbitrary: i)
  case Nil
  show ?case by simp
next
  case (Cons x xs)
  from Cons [of "Suc i"] show ?case by auto
qed

lemma take_prefix: "(take (length h) c = h) = prefix h c"
proof
  assume "take (length h) c = h"
  then have "c = h @ drop (length h) c"
    by (metis append_take_drop_id)
  then show "prefix h c" by (rule prefixI)
next
  assume "prefix h c"
  then obtain r where "c = h @ r" by (rule prefixE)
  then show "take (length h) c = h" by simp
qed

lemma indexOf_zero: "(indexOf c h = 0) = prefix h c"
proof (cases c)
  case Nil
  then show ?thesis by (simp add: indexOf_def)
next
  case (Cons x xs)
  show ?thesis
  proof (cases "take (length h) (x # xs) = h")
    case True
    then have "prefix h (x # xs)" using take_prefix [of h "x # xs"] by blast
    with True Cons show ?thesis by (simp add: indexOf_def)
  next
    case False
    then have np: "\<not> prefix h (x # xs)" using take_prefix [of h "x # xs"] by blast
    have "index_from (Suc 0) h xs \<noteq> 0"
      using index_from_range [of "Suc 0" h xs] by auto
    with False np Cons show ?thesis by (simp add: indexOf_def)
  qed
qed

lemma mark_link_active:
  assumes "normalisePath (case href l of None \<Rightarrow> '''' | Some a \<Rightarrow> a) = h"
    and "h = c \<or> (h \<noteq> ''/'' \<and> prefix h c)"
  shows "mark_link c l =
     l\<lparr>classList := classList_add ''is-active'' (classList l), aria_current := Some ''page''\<rparr>"
proof -
  have "(case href l of None \<Rightarrow> '''' | Some a \<Rightarrow> if a \<noteq> '''' then a else '''') =
        (case href l of None \<Rightarrow> '''' | Some a \<Rightarrow> a)"
    by (simp split: option.splits)
  then show ?thesis
    using assms by (auto simp: mark_link_def Let_def indexOf_zero)
qed

lemma mark_link_inactive:
  assumes "normalisePath (case href l of None \<Rightarrow> '''' | Some a \<Rightarrow> a) = h"
    and "\<not> (h = c \<or> (h \<noteq> ''/'' \<and> prefix h c))"
  shows "mark_link c l =
     l\<lparr>classList := classList_remove ''is-active'' (classList l), aria_current := None\<rparr>"
proof -
  have "(case href l of None \<Rightarrow> '''' | Some a \<Rightarrow> if a \<noteq> '''' then a else '''') =
        (case href l of None \<Rightarrow> '''' | Some a \<Rightarrow> a)"
    by (simp split: option.splits)
  then show ?thesis
    using assms by (auto simp: mark_link_def Let_def indexOf_zero)
qed

text \<open>
  C5: \<open>setActiveNav\<close> treats every navigation link by \<open>mark_link\<close> with the normalised
  current path \<open>c\<close>. With \<open>h\<close> the normalised target of a link, the link carries the class
  \<^verbatim>\<open>is-active\<close> and \<^verbatim>\<open>aria-current="page"\<close> afterwards if and only if \<open>h = c\<close>, or \<open>h\<close> is
  not the root and a prefix of \<open>c\<close>; otherwise it carries neither. With the current path
  \<^verbatim>\<open>/about/team\<close>, a link to \<^verbatim>\<open>/about\<close> is active and a link to \<^verbatim>\<open>/contact\<close> is not.
\<close>

theorem active_nav_marking:
  assumes "h = normalisePath (case href l of None \<Rightarrow> '''' | Some a \<Rightarrow> a)"
    and "c = normalisePath (pathname w)"
  shows "nav_links (setActiveNav w) = map (mark_link c) (nav_links w)
   \<and> ((''is-active'' \<in> set (classList (mark_link c l)) \<and>
        aria_current (mark_link c l) = Some ''page'')
       \<longleftrightarrow> (h = c \<or> (h \<noteq> ''/'' \<and> prefix h c)))
   \<and> (\<not> (h = c \<or> (h \<noteq> ''/'' \<and> prefix h c)) \<longrightarrow>
        ''is-active'' \<notin> set (classList (mark_link c l)) \<and> aria_current (mark_link c l) = None)
   \<and> href (mark_link c l) = href l
   \<and> mark_link (normalisePath ''/about/team'')
        \<lparr>href = Some ''/about'', classList = [''nav-link''], aria_current = None\<rparr> =
        \<lparr>href = Some ''/about'', classList = [''nav-link'', ''is-active''],
         aria_current = Some ''page''\<rparr>
   \<and> mark_link (normalisePath ''/about/team'')
        \<lparr>href = Some ''/contact'', classList = [''nav-link'', ''is-active''],
         aria_current = Some ''page''\<rparr> =
        \<lparr>href = Some ''/contact'', classList = [''nav-link''], aria_current = None\<rparr>"
proof -
  have a: "nav_links (setActiveNav w) = map (mark_link c) (nav_links w)"
    using assms(2) by (simp add: setActiveNav_def Let_def)
  have h: "normalisePath (case href l of None \<Rightarrow> '''' | Some a \<Rightarrow> a) = h"
    using assms(1) by simp
  have b: "(''is-active'' \<in> set (classList (mark_link c l)) \<and>
        aria_current (mark_link c l) = Some ''page'')
       \<longleftrightarrow> (h = c \<or> (h \<noteq> ''/'' \<and> prefix h c))"
  proof (cases "h = c \<or> (h \<noteq> ''/'' \<and> prefix h c)")
    case True
    from mark_link_active [OF h True] True show ?thesis
      by (simp add: classList_add_def)
  next
    case False
    from mark_link_inactive [OF h False] False show ?thesis
      by (simp add: classList_remove_def)
  qed
  have c: "\<not> (h = c \<or> (h \<noteq> ''/'' \<and> prefix h c)) \<longrightarrow>
        ''is-active'' \<notin> set (classList (mark_link c l)) \<and> aria_current (mark_link c l) = None"
  proof
    assume n: "\<not> (h = c \<or> (h \<noteq> ''/'' \<and> prefix h c))"
    from mark_link_inactive [OF h n]
    show "''is-active'' \<notin> set (classList (mark_link c l)) \<and> aria_current (mark_link c l) = None"
      by (simp add: classList_remove_def)
  qed
  have d: "href (mark_link c l) = href l"
    by (simp add: mark_link_def Let_def)
  have n1: "normalisePath ''/about/team'' = ''/about/team''"
    and n2: "normalisePath ''/about'' = ''/about''"
    and n3: "normalisePath ''/contact'' = ''/contact''"
    by (simp_all add: normalisePath_def toLowerCase_def strip_trailing_slashes_def
        lower_char_def is_upper_def)
  have e: "mark_link (normalisePath ''/about/team'')
        \<lparr>href = Some ''/about'', classList = [''nav-link''], aria_current = None\<rparr> =
        \<lparr>href = Some ''/about'', classList = [''nav-link'', ''is-active''],
         aria_current = Some ''page''\<rparr>"
    by (simp add: n1 n2 mark_link_def Let_def indexOf_def classList_add_def)
  have f: "mark_link (normalisePath ''/about/team'')
        \<lparr>href = Some ''/contact'', classList = [''nav-link'', ''is-active''],
         aria_current = Some ''page''\<rparr> =
        \<lparr>href = Some ''/contact'', classList = [''nav-link''], aria_current = None\<rparr>"
    by (simp add: n1 n3 mark_link_def Let_def indexOf_def classList_remove_def)
  from a b c d e f show ?thesis by blast
qed

theorem active_nav_marking_witness:
  "normalisePath ''/Legal/'' = normalisePath (case href \<lparr>href = Some ''/Legal/'', classList = [], aria_current = None\<rparr> of None \<Rightarrow> '''' | Some a \<Rightarrow> a)
   \<and> \<not> (normalisePath ''/Legal/'' = normalisePath ''/about'' \<or>
          (normalisePath ''/Legal/'' \<noteq> ''/'' \<and> prefix (normalisePath ''/Legal/'') (normalisePath ''/about'')))
   \<and> aria_current (mark_link (normalisePath ''/about'')
        \<lparr>href = Some ''/Legal/'', classList = [], aria_current = None\<rparr>) = None"
proof -
  let ?l = "\<lparr>href = Some ''/Legal/'', classList = [], aria_current = None\<rparr>"
  let ?w = "\<lparr>pathname = ''/about'', root = None, nav_links = [?l],
     footer = \<lparr>footer_name = None, footer_state = None, footer_email = None,
                footer_copyright = None\<rparr>,
     title = '''', meta_description = None, console = [], fetched = [],
     navConfigPromise = False\<rparr>"
  have h: "normalisePath ''/Legal/'' = normalisePath (case href ?l of None \<Rightarrow> '''' | Some a \<Rightarrow> a)"
    by simp
  have c: "normalisePath ''/about'' = normalisePath (pathname ?w)"
    by simp
  have n1: "normalisePath ''/Legal/'' = ''/legal''" and n2: "normalisePath ''/about'' = ''/about''"
    by (simp_all add: normalisePath_def toLowerCase_def strip_trailing_slashes_def
        lower_char_def is_upper_def)
  have n: "\<not> (normalisePath ''/Legal/'' = normalisePath ''/about'' \<or>
          (normalisePath ''/Legal/'' \<noteq> ''/'' \<and> prefix (normalisePath ''/Legal/'') (normalisePath ''/about'')))"
    by (simp add: n1 n2)
  from active_nav_marking [OF h c] n h show ?thesis by blast
qed

section \<open>Properties of the two pipelines\<close>

subsection \<open>Resolution miss\<close>






subsection \<open>Chrome failure\<close>

lemma applySiteChrome_null: "applySiteChrome year JNull f = (f, None)"
  by (simp add: applySiteChrome_def)

lemma chrome_settled_failed:
  assumes "and_then (response_text NAV_CONFIG_PATH result) load = Inl err"
  shows "chrome_settled load year result w =
     w\<lparr>console := console w @ [(''[page-renderer] Failed to load nav config:'', err)]\<rparr>"
  using assms by (simp add: chrome_settled_def Let_def applySiteChrome_null)

text \<open>
  C8: when the fetch of the navigation document fails, or answers with a status that is
  not a success, or its text does not parse, the chrome pipeline writes one error to the
  console and changes nothing else: the footer slots, the content root, the title and
  the navigation links are as before.
\<close>

theorem chrome_failure_leaves_markup:
  assumes "result = Inl e \<or>
           (\<exists>res. result = Inr res \<and> (\<not> ok res \<or> (\<exists>e'. load (body_text res) = Inl e')))"
  shows "\<exists>err. chrome_settled load year result w =
           w\<lparr>console := console w @ [(''[page-renderer] Failed to load nav config:'', err)]\<rparr>
         \<and> footer (chrome_settled load year result w) = footer w
         \<and> root (chrome_settled load year result w) = root w"
proof -
  have "\<exists>err. and_then (response_text NAV_CONFIG_PATH result) load = Inl err"
    using assms by (auto simp: response_text_def and_then_def)
  then obtain err where "and_then (response_text NAV_CONFIG_PATH result) load = Inl err"
    by blast
  then have "chrome_settled load year result w =
     w\<lparr>console := console w @ [(''[page-renderer] Failed to load nav config:'', err)]\<rparr>"
    by (rule chrome_settled_failed)
  then have "chrome_settled load year result w =
           w\<lparr>console := console w @ [(''[page-renderer] Failed to load nav config:'', err)]\<rparr>
         \<and> footer (chrome_settled load year result w) = footer w
         \<and> root (chrome_settled load year result w) = root w"
    by simp
  then show ?thesis by (rule exI)
qed

theorem chrome_failure_leaves_markup_witness:
  "\<not> ok \<lparr>ok = False, status = 500, body_text = ''''\<rparr>
   \<and> footer (chrome_settled (\<lambda>t. Inr JNull) 2026
        (Inr \<lparr>ok = False, status = 500, body_text = ''''\<rparr>)
        \<lparr>pathname = ''/'', root = None, nav_links = [],
         footer = \<lparr>footer_name = Some ''Studio'', footer_state = None, footer_email = None,
                    footer_copyright = Some ''2020''\<rparr>,
         title = '''', meta_description = None, console = [], fetched = [],
         navConfigPromise = True\<rparr>) =
       \<lparr>footer_name = Some ''Studio'', footer_state = None, footer_email = None,
        footer_copyright = Some ''2020''\<rparr>"
proof -
  let ?res = "\<lparr>ok = False, status = 500, body_text = ''''\<rparr>"
  let ?load = "\<lambda>t::string. (Inr JNull :: js_error + jsval)"
  let ?w = "\<lparr>pathname = ''/'', root = None, nav_links = [],
         footer = \<lparr>footer_name = Some ''Studio'', footer_state = None, footer_email = None,
                    footer_copyright = Some ''2020''\<rparr>,
         title = '''', meta_description = None, console = [], fetched = [],
         navConfigPromise = True\<rparr>"
  have h: "Inr ?res = Inl TypeError \<or>
           (\<exists>res. (Inr ?res :: js_error + response) = Inr res \<and>
              (\<not> ok res \<or> (\<exists>e'. ?load (body_text res) = Inl e')))"
    by simp
  from chrome_failure_leaves_markup [OF h, of 2026 ?w] show ?thesis by auto
qed

text \<open>The footer does change when the navigation document loads.\<close>

lemma chrome_success_changes_footer:
  "footer (chrome_settled (\<lambda>t. Inr (JObj [(''footer'', JObj [(''copyright_year'', JNum 2024)])])) 2026
        (Inr \<lparr>ok = True, status = 200, body_text = ''''\<rparr>)
        \<lparr>pathname = ''/'', root = None, nav_links = [],
         footer = \<lparr>footer_name = Some ''Studio'', footer_state = None, footer_email = None,
                    footer_copyright = Some ''2020''\<rparr>,
         title = '''', meta_description = None, console = [], fetched = [],
         navConfigPromise = True\<rparr>) =
       \<lparr>footer_name = Some DEFAULT_ENTITY_NAME, footer_state = None, footer_email = None,
        footer_copyright =
          Some (''&copy; 2024 '' @ DEFAULT_ENTITY_NAME @ ''. All rights reserved.'')\<rparr>"
  by (simp add: chrome_settled_def response_text_def and_then_def applySiteChrome_def
      applyFooter_def Let_def js_or_def digits.simps esc_def replace_all_def
      DEFAULT_ENTITY_NAME_def)

subsection \<open>Replacing the content\<close>

lemma trace_content_ops:
  "trace_ops (content_ops fragment) r =
     [r,
      r\<lparr>aria_busy := Some ''false''\<rparr>,
      r\<lparr>aria_busy := Some ''false'', children := []\<rparr>,
      r\<lparr>aria_busy := Some ''false'', children := map SectionEl fragment\<rparr>]"
  by (simp add: content_ops_def)

lemma run_content_ops:
  "run_ops (content_ops fragment) r =
     r\<lparr>aria_busy := Some ''false'', children := map SectionEl fragment\<rparr>"
  by (simp add: content_ops_def run_ops_def)

lemma content_loaded_root:
  assumes "content_loaded load text w = (w', None)"
  shows "\<exists>data fragment. load text = Inr data \<and> render_sections data = Inr fragment \<and>
           root w' = map_option (run_ops (content_ops fragment)) (root w)"
proof -
  obtain data where d: "load text = Inr data" and nn: "\<not> nullish data"
    using assms by (auto simp: content_loaded_def split: sum.splits if_splits)
  obtain fragment where f: "render_sections data = Inr fragment"
    using assms d nn
    by (cases "render_sections data")
      (auto simp: content_loaded_def Let_def split: sum.splits if_splits)
  have "root w' = map_option (run_ops (content_ops fragment)) (root w)"
    using assms d nn f
    by (auto simp: content_loaded_def Let_def setActiveNav_def and_then_def
        split: sum.splits if_splits)
  with d f show ?thesis by blast
qed

text \<open>
  C9 (as amended): on the transition from Rendering to Rendered the callback runs three
  statements on the content root, one after the other and without a suspension point:
  it sets \<^verbatim>\<open>aria-busy\<close> to \<^verbatim>\<open>false\<close>, empties the container, and appends the whole fragment
  by one \<^verbatim>\<open>appendChild\<close>. The container is empty between the second and the third
  statement; after the third its children are exactly the rendered sections in document
  order.
\<close>

theorem content_replaced_in_two_steps:
  assumes "content_loaded load text w = (w', None)"
  shows "\<exists>data fragment. load text = Inr data \<and> render_sections data = Inr fragment
     \<and> root w' = map_option (run_ops (content_ops fragment)) (root w)
     \<and> (\<forall>r. trace_ops (content_ops fragment) r =
          [r,
           r\<lparr>aria_busy := Some ''false''\<rparr>,
           r\<lparr>aria_busy := Some ''false'', children := []\<rparr>,
           r\<lparr>aria_busy := Some ''false'', children := map SectionEl fragment\<rparr>]
        \<and> run_ops (content_ops fragment) r = last (trace_ops (content_ops fragment) r))"
proof -
  obtain data fragment where "load text = Inr data" and "render_sections data = Inr fragment"
    and "root w' = map_option (run_ops (content_ops fragment)) (root w)"
    using content_loaded_root [OF assms] by blast
  then show ?thesis
    by (auto simp: trace_content_ops run_content_ops)
qed

theorem content_replaced_in_two_steps_witness:
  \<open>snd (content_loaded
          (\<lambda>t. Inr (JObj [(''sections'',
             JArr [JObj [(''type'', JStr ''statement''), (''body'', JStr ''Hi'')]])])) ''''
        \<lparr>pathname = ''/'',
         root = Some \<lparr>aria_busy = Some ''true'', children = [Parsed ''<p>Loading</p>'']\<rparr>,
         nav_links = [],
         footer = \<lparr>footer_name = None, footer_state = None, footer_email = None,
                    footer_copyright = None\<rparr>,
         title = '''', meta_description = None, console = [], fetched = [],
         navConfigPromise = True\<rparr>) = None
   \<and> root (fst (content_loaded
          (\<lambda>t. Inr (JObj [(''sections'',
             JArr [JObj [(''type'', JStr ''statement''), (''body'', JStr ''Hi'')]])])) ''''
        \<lparr>pathname = ''/'',
         root = Some \<lparr>aria_busy = Some ''true'', children = [Parsed ''<p>Loading</p>'']\<rparr>,
         nav_links = [],
         footer = \<lparr>footer_name = None, footer_state = None, footer_email = None,
                    footer_copyright = None\<rparr>,
         title = '''', meta_description = None, console = [], fetched = [],
         navConfigPromise = True\<rparr>)) =
       Some \<lparr>aria_busy = Some ''false'',
             children = [SectionEl \<lparr>className = ''section section--statement'', elem_id = None,
               innerHTML = ''<div class="section-inner"><p class="statement-body">Hi</p></div>''\<rparr>]\<rparr>\<close>
proof -
  let ?doc = "JObj [(''sections'',
     JArr [JObj [(''type'', JStr ''statement''), (''body'', JStr ''Hi'')]])]"
  let ?load = "\<lambda>t::string. (Inr ?doc :: js_error + jsval)"
  let ?r = "\<lparr>aria_busy = Some ''true'', children = [Parsed ''<p>Loading</p>'']\<rparr>"
  let ?w = "\<lparr>pathname = ''/'', root = Some ?r, nav_links = [],
         footer = \<lparr>footer_name = None, footer_state = None, footer_email = None,
                    footer_copyright = None\<rparr>,
         title = '''', meta_description = None, console = [], fetched = [],
         navConfigPromise = True\<rparr>"
  have rs: \<open>render_sections ?doc =
      Inr [\<lparr>className = ''section section--statement'', elem_id = None,
            innerHTML = ''<div class="section-inner"><p class="statement-body">Hi</p></div>''\<rparr>]\<close>
    by (simp add: render_sections_def array_map_def js_or_def renderSection_def
        lookup_renderers statement_def statement_markup_def createSection_def and_then_def
        esc_def replace_all_def)
  have s: "snd (content_loaded ?load '''' ?w) = None"
    by (simp add: content_loaded_def rs Let_def)
  then have h: "content_loaded ?load '''' ?w = (fst (content_loaded ?load '''' ?w), None)"
    by (metis prod.collapse)
  obtain data fragment where d: "?load '''' = Inr data"
    and f: "render_sections data = Inr fragment"
    and r: "root (fst (content_loaded ?load '''' ?w)) =
              map_option (run_ops (content_ops fragment)) (root ?w)"
    and t: "\<forall>r. trace_ops (content_ops fragment) r =
               [r,
                r\<lparr>aria_busy := Some ''false''\<rparr>,
                r\<lparr>aria_busy := Some ''false'', children := []\<rparr>,
                r\<lparr>aria_busy := Some ''false'', children := map SectionEl fragment\<rparr>] \<and>
             run_ops (content_ops fragment) r = last (trace_ops (content_ops fragment) r)"
    using content_replaced_in_two_steps [OF h] by blast
  from d have "data = ?doc" by simp
  with f rs have fr: \<open>fragment =
      [\<lparr>className = ''section section--statement'', elem_id = None,
        innerHTML = ''<div class="section-inner"><p class="statement-body">Hi</p></div>''\<rparr>]\<close>
    by simp
  from t have "run_ops (content_ops fragment) ?r =
      ?r\<lparr>aria_busy := Some ''false'', children := map SectionEl fragment\<rparr>"
    by simp
  with r have "root (fst (content_loaded ?load '''' ?w)) =
      Some (?r\<lparr>aria_busy := Some ''false'', children := map SectionEl fragment\<rparr>)"
    by simp
  with fr s show ?thesis by simp
qed

theorem content_root_empty_between:
  "map children
     (trace_ops (content_ops [\<lparr>className = ''section section--hero'', elem_id = None,
                               innerHTML = ''''\<rparr>])
        \<lparr>aria_busy = Some ''true'', children = [Parsed ''<p>Loading</p>'']\<rparr>) =
   [[Parsed ''<p>Loading</p>''],
    [Parsed ''<p>Loading</p>''],
    [],
    [SectionEl \<lparr>className = ''section section--hero'', elem_id = None, innerHTML = ''''\<rparr>]]"
  by (simp add: content_ops_def)


end
